theory Spec2Isabelle
  imports Main "HOL-Library.Word" "HOL-Library.Multiset"
begin

section \<open>Go library functions used by the handler\<close>

text \<open>
  Go strings are byte sequences; \<open>string\<close> (a list of 8-bit characters) models them
  byte for byte. Only the separator \<open>":"\<close> is ever passed to \<open>strings.Split\<close>, so the
  separator is a single character here.
\<close>

definition colon :: char where
  "colon = CHR '':''"

text \<open>\<open>strings.HasSuffix(s, suffix)\<close>:
  \<open>len(s) >= len(suffix) && s[len(s)-len(suffix):] == suffix\<close>.\<close>

definition strings_HasSuffix :: "string \<Rightarrow> string \<Rightarrow> bool" where
  "strings_HasSuffix s suffix =
     (length s \<ge> length suffix \<and> drop (length s - length suffix) s = suffix)"

text \<open>\<open>strings.HasPrefix(s, prefix)\<close>:
  \<open>len(s) >= len(prefix) && s[:len(prefix)] == prefix\<close>.\<close>

definition strings_HasPrefix :: "string \<Rightarrow> string \<Rightarrow> bool" where
  "strings_HasPrefix s pre = (length s \<ge> length pre \<and> take (length pre) s = pre)"

text \<open>\<open>strings.Contains(s, substr)\<close>: \<open>substr\<close> occurs at some offset of \<open>s\<close>.\<close>

fun strings_Contains :: "string \<Rightarrow> string \<Rightarrow> bool" where
  "strings_Contains [] substr = (substr = [])"
| "strings_Contains (c # cs) substr =
     (strings_HasPrefix (c # cs) substr \<or> strings_Contains cs substr)"

text \<open>
  \<open>strings.Split(s, ":")\<close>: the pieces of \<open>s\<close> between the separators, one more
  piece than there are separators; the empty string gives one empty piece. The
  accumulator \<open>cur\<close> is the piece being read, in reverse.
\<close>

fun splitFrom :: "string \<Rightarrow> string \<Rightarrow> string list" where
  "splitFrom cur [] = [rev cur]"
| "splitFrom cur (c # cs) =
     (if c = colon then rev cur # splitFrom [] cs else splitFrom (c # cur) cs)"

definition strings_Split :: "string \<Rightarrow> string list" where
  "strings_Split s = splitFrom [] s"

section \<open>PLC responses (internal/types/plc\_response.go)\<close>

definition PLCStatusWaiting :: string where "PLCStatusWaiting = ''W''"
definition PLCStatusInitializing :: string where "PLCStatusInitializing = ''I''"
definition PLCStatusRunning :: string where "PLCStatusRunning = ''R''"
definition PLCStatusSuccess :: string where "PLCStatusSuccess = ''S''"
definition PLCStatusFailed :: string where "PLCStatusFailed = ''F''"

text \<open>\<open>extractBaseCommand\<close>: the first piece of the command split at \<open>":"\<close>; the
  fallback for an empty split result is kept as the source has it.\<close>

definition extractBaseCommand :: "string \<Rightarrow> string" where
  "extractBaseCommand command =
     (case strings_Split command of
        p # _ \<Rightarrow> p
      | [] \<Rightarrow> command)"

record PLCResponse =
  Command :: string
  Status :: string

definition NewPLCResponse :: "string \<Rightarrow> string \<Rightarrow> string \<Rightarrow> PLCResponse" where
  "NewPLCResponse command status message =
     \<lparr>Command = extractBaseCommand command, Status = status\<rparr>"

definition ToResponseString :: "PLCResponse \<Rightarrow> string" where
  "ToResponseString r = Command r @ '':'' @ Status r"

section \<open>Robot-bound documents (internal/types/order.go, instant\_actions.go)\<close>

text \<open>
  The documents as the structs declare them. The \<open>Timestamp\<close> fields, the constant
  all-zero \<open>NodePosition\<close> and the optional fields that the handler leaves nil are
  not carried: the handler never reads them back. \<open>HeaderID\<close> is Go's \<open>int64\<close>.
\<close>

record ActionParameter =
  Key :: string
  Value :: string

record Action =
  ActionType :: string
  ActionID :: string
  ActionDescription :: "string option"
  BlockingType :: string
  ActionParameters :: "ActionParameter list"

record Node =
  NodeID :: string
  SequenceID :: int
  NodeDescription :: "string option"
  Released :: bool
  Actions :: "Action list"

record OrderMessage =
  HeaderID :: "64 word"
  Version :: string
  Manufacturer :: string
  SerialNumber :: string
  OrderID :: string
  OrderUpdateID :: int
  Nodes :: "Node list"

record InstantAction =
  IActionType :: string
  IActionID :: string
  IBlockingType :: string

record InstantActionsMessage =
  IHeaderID :: "64 word"
  IVersion :: string
  IManufacturer :: string
  ISerialNumber :: string
  IActions :: "InstantAction list"

definition BlockingTypeNone :: string where "BlockingTypeNone = ''NONE''"
definition BlockingTypeHard :: string where "BlockingTypeHard = ''HARD''"

definition NewAction :: "string \<Rightarrow> string \<Rightarrow> string \<Rightarrow> Action" where
  "NewAction actionType actionID blockingType =
     \<lparr>ActionType = actionType, ActionID = actionID, ActionDescription = None,
      BlockingType = blockingType, ActionParameters = []\<rparr>"

definition NewNode :: "string \<Rightarrow> int \<Rightarrow> bool \<Rightarrow> Node" where
  "NewNode nodeID sequenceID released =
     \<lparr>NodeID = nodeID, SequenceID = sequenceID, NodeDescription = None,
      Released = released, Actions = []\<rparr>"

definition NewOrderMessage ::
  "64 word \<Rightarrow> string \<Rightarrow> string \<Rightarrow> string \<Rightarrow> int \<Rightarrow> OrderMessage" where
  "NewOrderMessage headerID manufacturer serialNumber orderID orderUpdateID =
     \<lparr>HeaderID = headerID, Version = ''2.0.0'', Manufacturer = manufacturer,
      SerialNumber = serialNumber, OrderID = orderID, OrderUpdateID = orderUpdateID,
      Nodes = []\<rparr>"

definition NewInstantAction :: "string \<Rightarrow> string \<Rightarrow> string \<Rightarrow> InstantAction" where
  "NewInstantAction actionType actionID blockingType =
     \<lparr>IActionType = actionType, IActionID = actionID, IBlockingType = blockingType\<rparr>"

definition NewInstantActionsMessage ::
  "64 word \<Rightarrow> string \<Rightarrow> string \<Rightarrow> InstantActionsMessage" where
  "NewInstantActionsMessage headerID manufacturer serialNumber =
     \<lparr>IHeaderID = headerID, IVersion = ''2.0.0'', IManufacturer = manufacturer,
      ISerialNumber = serialNumber, IActions = []\<rparr>"

section \<open>Decoded state reports\<close>

text \<open>
  What \<open>json.Unmarshal\<close> puts behind an \<open>interface{}\<close>: a string, an array, an
  object (its decoded key/value map, read with \<open>map_of\<close>), or something else
  (null, a bool, a number), which every type assertion of the handler rejects alike.
\<close>

datatype json =
    JString string
  | JArray "json list"
  | JObject "(string \<times> json) list"
  | JOther

text \<open>The comma-ok type assertions \<open>v.(string)\<close>, \<open>v.([]interface{})\<close> and
  \<open>v.(map[string]interface{})\<close> on the value of a map lookup (\<open>None\<close>: key absent).\<close>

fun assertString :: "json option \<Rightarrow> string option" where
  "assertString (Some (JString s)) = Some s"
| "assertString _ = None"

fun assertArray :: "json option \<Rightarrow> json list option" where
  "assertArray (Some (JArray xs)) = Some xs"
| "assertArray _ = None"

fun assertObject :: "json option \<Rightarrow> (string \<times> json) list option" where
  "assertObject (Some (JObject kvs)) = Some kvs"
| "assertObject _ = None"

section \<open>The handler (internal/messaging/handler.go)\<close>

record Config =
  PlcResponseTopic :: string
  RobotSerialNumber :: string
  RobotManufacturer :: string

text \<open>
  The handler's two maps, with the package-level \<open>headerIDCounter\<close> (an \<open>int64\<close>)
  carried in the same state since every handler call may advance it.
\<close>

record DirectActionHandler =
  config :: Config
  activeOrders :: "string \<rightharpoonup> string"
  canceledOrders :: "string \<rightharpoonup> string"
  headerIDCounter :: "64 word"

definition NewDirectActionHandler :: "Config \<Rightarrow> DirectActionHandler" where
  "NewDirectActionHandler cfg =
     \<lparr>config = cfg, activeOrders = Map.empty, canceledOrders = Map.empty,
      headerIDCounter = 0\<rparr>"

text \<open>Every call of \<open>mqttClient.Publish\<close> is recorded with its topic and payload.\<close>

datatype payload =
    Text string
  | OrderDoc OrderMessage
  | InstantActionsDoc InstantActionsMessage

datatype publish = Publish string payload

text \<open>
  What a command callback reads from outside the handler: the three clock readings
  \<open>time.Now().UnixNano()\<close> of the id generators, whether the robot-bound
  \<open>Publish\<close> returns nil, and the entries of \<open>activeOrders\<close> in the order in
  which this execution of \<open>range\<close> yields them (Go leaves that order open).
\<close>

record CommandEnv =
  clockOrder :: "64 word"
  clockNode :: "64 word"
  clockAction :: "64 word"
  publishOK :: bool
  rangeOrder :: "(string \<times> string) list"

definition rangeOrderValid :: "DirectActionHandler \<Rightarrow> CommandEnv \<Rightarrow> bool" where
  "rangeOrderValid h env =
     (distinct (map fst (rangeOrder env)) \<and> map_of (rangeOrder env) = activeOrders h)"

datatype go_panic = IndexOutOfRange

datatype go_error = InvalidCommandType char | PublishFailed

subsection \<open>Identifier generation\<close>

definition hexDigit :: "nat \<Rightarrow> char" where
  "hexDigit d = ''0123456789abcdef'' ! d"

text \<open>The \<open>w\<close> lowest hexadecimal digits of \<open>n\<close>, most significant first.\<close>

fun hexFixed :: "nat \<Rightarrow> nat \<Rightarrow> string" where
  "hexFixed 0 n = []"
| "hexFixed (Suc w) n = hexFixed w (n div 16) @ [hexDigit (n mod 16)]"

text \<open>
  \<open>fmt.Sprintf("%016x", v)\<close> for an \<open>int64\<close>: sixteen hexadecimal digits, zero
  padded; a negative value prints a minus sign and its magnitude padded to fifteen
  digits (sixteen when the magnitude needs them).
\<close>

definition fmt_016x :: "64 word \<Rightarrow> string" where
  "fmt_016x v =
     (if 0 \<le> sint v then hexFixed 16 (nat (sint v))
      else if nat (- sint v) < 16 ^ 15 then CHR ''-'' # hexFixed 15 (nat (- sint v))
      else CHR ''-'' # hexFixed 16 (nat (- sint v)))"

definition generateOrderID :: "CommandEnv \<Rightarrow> string" where
  "generateOrderID env = fmt_016x (clockOrder env)"

definition generateNodeID :: "CommandEnv \<Rightarrow> string" where
  "generateNodeID env = fmt_016x (clockNode env + 1)"

definition generateActionID :: "CommandEnv \<Rightarrow> string" where
  "generateActionID env = fmt_016x (clockAction env + 2)"

definition getNextHeaderID :: "DirectActionHandler \<Rightarrow> DirectActionHandler \<times> 64 word" where
  "getNextHeaderID h =
     (h\<lparr>headerIDCounter := headerIDCounter h + 1\<rparr>, headerIDCounter h + 1)"

subsection \<open>Command classification and responses\<close>

definition isDirectActionCommand :: "string \<Rightarrow> bool" where
  "isDirectActionCommand commandStr =
     (strings_HasSuffix commandStr '':I'' \<or> strings_Contains commandStr '':T'')"

definition isCancelCommand :: "string \<Rightarrow> bool" where
  "isCancelCommand commandStr = strings_HasSuffix commandStr '':C''"

text \<open>\<open>sendPLCResponse\<close>: one \<open>Publish\<close> of \<open>"<base>:<status>"\<close> on the response
  topic; the call's result is dropped by the source.\<close>

definition sendPLCResponse :: "DirectActionHandler \<Rightarrow> string \<Rightarrow> string \<Rightarrow> publish list" where
  "sendPLCResponse h command status =
     [Publish (PlcResponseTopic (config h))
        (Text (ToResponseString (NewPLCResponse command status [])))]"

definition parseArmParam :: "string \<Rightarrow> string" where
  "parseArmParam armParam =
     (if armParam = ''R'' \<or> armParam = [] then ''right''
      else if armParam = ''L'' then ''left''
      else ''right'')"

subsection \<open>Building and publishing an order\<close>

definition buildActionParameters ::
  "string \<Rightarrow> char \<Rightarrow> string \<Rightarrow> string \<times> ActionParameter list" where
  "buildActionParameters baseCommand commandType armParam =
     (if commandType = CHR ''I'' then
        (''Roboligent Robin - Inference'',
         [\<lparr>Key = ''inference_name'', Value = baseCommand\<rparr>])
      else if commandType = CHR ''T'' then
        (''Roboligent Robin - Follow Trajectory'',
         [\<lparr>Key = ''trajectory_name'', Value = baseCommand\<rparr>,
          \<lparr>Key = ''arm'', Value = parseArmParam armParam\<rparr>])
      else ([], []))"

definition buildOrder ::
  "DirectActionHandler \<Rightarrow> string \<Rightarrow> string \<Rightarrow> string \<Rightarrow> string \<Rightarrow> string \<Rightarrow>
   ActionParameter list \<Rightarrow> DirectActionHandler \<times> OrderMessage" where
  "buildOrder h orderID nodeID actionID baseCommand actionType actionParameters =
     (let (h1, headerID) = getNextHeaderID h;
          order = NewOrderMessage headerID (RobotManufacturer (config h1))
                    (RobotSerialNumber (config h1)) orderID 0;
          node = (NewNode nodeID 1 True)
                   \<lparr>NodeDescription := Some (''Direct action for command '' @ baseCommand)\<rparr>;
          action = (NewAction actionType actionID BlockingTypeNone)
                   \<lparr>ActionDescription :=
                      Some (''Execute '' @ actionType @ '' for '' @ baseCommand),
                    ActionParameters := actionParameters\<rparr>;
          node = node\<lparr>Actions := Actions node @ [action]\<rparr>;
          order = order\<lparr>Nodes := Nodes order @ [node]\<rparr>
      in (h1, order))"

definition orderTopic :: "Config \<Rightarrow> string" where
  "orderTopic cfg =
     ''meili/v2/'' @ RobotManufacturer cfg @ ''/'' @ RobotSerialNumber cfg @ ''/order''"

definition instantActionsTopic :: "Config \<Rightarrow> string" where
  "instantActionsTopic cfg =
     ''meili/v2/'' @ RobotManufacturer cfg @ ''/'' @ RobotSerialNumber cfg
       @ ''/instantActions''"

text \<open>\<open>publishOrder\<close>: marshalling these structs cannot fail, so the only error is
  the one \<open>Publish\<close> returns.\<close>

definition publishOrder ::
  "DirectActionHandler \<Rightarrow> CommandEnv \<Rightarrow> OrderMessage \<Rightarrow> string \<Rightarrow>
   publish list \<times> (go_error + string)" where
  "publishOrder h env order orderID =
     ([Publish (orderTopic (config h)) (OrderDoc order)],
      if publishOK env then Inr orderID else Inl PublishFailed)"

definition sendDirectActionOrder ::
  "DirectActionHandler \<Rightarrow> CommandEnv \<Rightarrow> string \<Rightarrow> char \<Rightarrow> string \<Rightarrow>
   DirectActionHandler \<times> publish list \<times> (go_error + string)" where
  "sendDirectActionOrder h env baseCommand commandType armParam =
     (let (actionType, actionParameters) =
            buildActionParameters baseCommand commandType armParam
      in if actionType = [] then (h, [], Inl (InvalidCommandType commandType))
         else
           let orderID = generateOrderID env;
               nodeID = generateNodeID env;
               actionID = generateActionID env;
               (h1, order) =
                 buildOrder h orderID nodeID actionID baseCommand actionType actionParameters;
               (pubs, res) = publishOrder h1 env order orderID
           in (h1, pubs, res))"

text \<open>
  \<open>handleDirectAction\<close>. \<open>parts[1][0]\<close> indexes the second piece's first byte: on an
  empty piece the Go runtime panics, before anything is published or stored.
\<close>

definition handleDirectAction ::
  "DirectActionHandler \<Rightarrow> CommandEnv \<Rightarrow> string \<Rightarrow>
   go_panic + (DirectActionHandler \<times> publish list)" where
  "handleDirectAction h env commandStr =
     (let parts = strings_Split commandStr
      in if length parts < 2 then Inr (h, sendPLCResponse h commandStr PLCStatusFailed)
         else
           let baseCommand = parts ! 0
           in (case parts ! 1 of
                 [] \<Rightarrow> Inl IndexOutOfRange
               | cmdType # _ \<Rightarrow>
                   let armParam = (if length parts \<ge> 3 then parts ! 2 else [])
                   in (case sendDirectActionOrder h env baseCommand cmdType armParam of
                         (h1, pubs, Inl err) \<Rightarrow>
                           Inr (h1, pubs @ sendPLCResponse h1 commandStr PLCStatusFailed)
                       | (h1, pubs, Inr orderID) \<Rightarrow>
                           Inr (h1\<lparr>activeOrders := (activeOrders h1)(orderID \<mapsto> commandStr)\<rparr>,
                                pubs))))"

subsection \<open>Cancelling\<close>

text \<open>The \<open>range\<close> loop of \<open>handleCancelCommand\<close>: the id of the first entry
  yielded whose command has the wanted base, the empty string when the loop runs out.\<close>

fun findTargetOrderID :: "(string \<times> string) list \<Rightarrow> string \<Rightarrow> string" where
  "findTargetOrderID [] baseCommand = []"
| "findTargetOrderID ((orderID, originalCommand) # rest) baseCommand =
     (if extractBaseCommand originalCommand = baseCommand then orderID
      else findTargetOrderID rest baseCommand)"

definition sendCancelOrder ::
  "DirectActionHandler \<Rightarrow> CommandEnv \<Rightarrow> string \<Rightarrow>
   DirectActionHandler \<times> publish list \<times> go_error option" where
  "sendCancelOrder h env orderID =
     (let (h1, headerID) = getNextHeaderID h;
          instantActions = NewInstantActionsMessage headerID (RobotManufacturer (config h1))
                             (RobotSerialNumber (config h1));
          actionID = generateActionID env;
          cancelAction = NewInstantAction ''cancelOrder'' actionID BlockingTypeHard;
          instantActions = instantActions\<lparr>IActions := IActions instantActions @ [cancelAction]\<rparr>
      in (h1,
          [Publish (instantActionsTopic (config h1)) (InstantActionsDoc instantActions)],
          if publishOK env then None else Some PublishFailed))"

definition handleCancelCommand ::
  "DirectActionHandler \<Rightarrow> CommandEnv \<Rightarrow> string \<Rightarrow> DirectActionHandler \<times> publish list" where
  "handleCancelCommand h env commandStr =
     (let baseCommand = extractBaseCommand commandStr;
          targetOrderID = findTargetOrderID (rangeOrder env) baseCommand
      in if targetOrderID = [] then (h, sendPLCResponse h commandStr PLCStatusFailed)
         else
           (case sendCancelOrder h env targetOrderID of
              (h1, pubs, Some err) \<Rightarrow>
                (h1, pubs @ sendPLCResponse h1 commandStr PLCStatusFailed)
            | (h1, pubs, None) \<Rightarrow>
                (h1\<lparr>activeOrders := (activeOrders h1)(targetOrderID := None),
                    canceledOrders := (canceledOrders h1)(targetOrderID \<mapsto> commandStr)\<rparr>,
                 pubs)))"

text \<open>\<open>HandlePLCCommand\<close>, on the payload already trimmed by \<open>strings.TrimSpace\<close>.\<close>

definition HandlePLCCommand ::
  "DirectActionHandler \<Rightarrow> CommandEnv \<Rightarrow> string \<Rightarrow>
   go_panic + (DirectActionHandler \<times> publish list)" where
  "HandlePLCCommand h env commandStr =
     (if isCancelCommand commandStr then Inr (handleCancelCommand h env commandStr)
      else if \<not> isDirectActionCommand commandStr then
        Inr (h, sendPLCResponse h commandStr PLCStatusFailed)
      else handleDirectAction h env commandStr)"

subsection \<open>State reports\<close>

text \<open>The counting loop of \<open>processActionStates\<close>; \<open>statusCounts\<close> is the Go map
  with its zero default, here a function into the naturals.\<close>

fun countStatuses :: "json list \<Rightarrow> (string \<Rightarrow> nat) \<Rightarrow> (string \<Rightarrow> nat)" where
  "countStatuses [] statusCounts = statusCounts"
| "countStatuses (actionState # rest) statusCounts =
     (case assertObject (Some actionState) of
        Some actionMap \<Rightarrow>
          (case assertString (map_of actionMap ''actionStatus'') of
             Some actionStatus \<Rightarrow>
               countStatuses rest
                 (statusCounts(actionStatus := statusCounts actionStatus + 1))
           | None \<Rightarrow> countStatuses rest statusCounts)
      | None \<Rightarrow> countStatuses rest statusCounts)"

definition processActionStates ::
  "DirectActionHandler \<Rightarrow> string \<Rightarrow> string \<Rightarrow> json list \<Rightarrow>
   DirectActionHandler \<times> publish list" where
  "processActionStates h orderID originalCommand actionStates =
     (let statusCounts = countStatuses actionStates (\<lambda>_. 0)
      in if statusCounts ''FAILED'' > 0 then
           (h\<lparr>activeOrders := (activeOrders h)(orderID := None)\<rparr>,
            sendPLCResponse h originalCommand PLCStatusFailed)
         else if statusCounts ''FINISHED'' > 0 \<and> statusCounts ''RUNNING'' = 0
                 \<and> statusCounts ''INITIALIZING'' = 0 \<and> statusCounts ''WAITING'' = 0 then
           (h\<lparr>activeOrders := (activeOrders h)(orderID := None)\<rparr>,
            sendPLCResponse h originalCommand PLCStatusSuccess)
         else if statusCounts ''RUNNING'' > 0 then
           (h, sendPLCResponse h originalCommand PLCStatusRunning)
         else if statusCounts ''INITIALIZING'' > 0 then
           (h, sendPLCResponse h originalCommand PLCStatusInitializing)
         else if statusCounts ''WAITING'' > 0 then
           (h, sendPLCResponse h originalCommand PLCStatusWaiting)
         else (h, []))"

fun processCanceledOrderStates ::
  "DirectActionHandler \<Rightarrow> string \<Rightarrow> string \<Rightarrow> json list \<Rightarrow>
   DirectActionHandler \<times> publish list" where
  "processCanceledOrderStates h orderID originalCancelCommand [] = (h, [])"
| "processCanceledOrderStates h orderID originalCancelCommand (actionState # rest) =
     (case assertObject (Some actionState) of
        Some actionMap \<Rightarrow>
          (case assertString (map_of actionMap ''actionStatus'') of
             Some actionStatus \<Rightarrow>
               if actionStatus = ''FAILED'' then
                 (h\<lparr>canceledOrders := (canceledOrders h)(orderID := None)\<rparr>,
                  sendPLCResponse h originalCancelCommand PLCStatusFailed)
               else if actionStatus = ''FINISHED'' then
                 (h\<lparr>canceledOrders := (canceledOrders h)(orderID := None)\<rparr>,
                  sendPLCResponse h originalCancelCommand PLCStatusSuccess)
               else processCanceledOrderStates h orderID originalCancelCommand rest
           | None \<Rightarrow> processCanceledOrderStates h orderID originalCancelCommand rest)
      | None \<Rightarrow> processCanceledOrderStates h orderID originalCancelCommand rest)"

text \<open>
  \<open>HandleRobotState\<close> on the result of \<open>json.Unmarshal\<close> into a
  \<open>map[string]interface{}\<close>: \<open>None\<close> when decoding fails, else the decoded map.
\<close>

definition HandleRobotState ::
  "DirectActionHandler \<Rightarrow> (string \<times> json) list option \<Rightarrow>
   DirectActionHandler \<times> publish list" where
  "HandleRobotState h decoded =
     (case decoded of
        None \<Rightarrow> (h, [])
      | Some stateMsg \<Rightarrow>
          (case assertString (map_of stateMsg ''orderId'') of
             None \<Rightarrow> (h, [])
           | Some orderID \<Rightarrow>
               if orderID \<noteq> [] then
                 (case canceledOrders h orderID of
                    Some originalCancelCommand \<Rightarrow>
                      (case assertArray (map_of stateMsg ''actionStates'') of
                         Some actionStates \<Rightarrow>
                           processCanceledOrderStates h orderID originalCancelCommand
                             actionStates
                       | None \<Rightarrow> (h, []))
                  | None \<Rightarrow>
                      (case activeOrders h orderID of
                         Some originalCommand \<Rightarrow>
                           (case assertArray (map_of stateMsg ''actionStates'') of
                              Some actionStates \<Rightarrow>
                                processActionStates h orderID originalCommand actionStates
                            | None \<Rightarrow> (h, []))
                       | None \<Rightarrow> (h, [])))
               else (h, [])))"

section \<open>Runs of the handler\<close>

text \<open>
  The two callbacks the subscriber registers, as inputs of a run. A panic ends the
  process, so a run stops there with what it had.
\<close>

datatype input =
    PLCCommand CommandEnv string
  | RobotState "(string \<times> json) list option"

fun step ::
  "DirectActionHandler \<Rightarrow> input \<Rightarrow> go_panic + (DirectActionHandler \<times> publish list)" where
  "step h (PLCCommand env commandStr) = HandlePLCCommand h env commandStr"
| "step h (RobotState decoded) = Inr (HandleRobotState h decoded)"

fun run :: "DirectActionHandler \<Rightarrow> input list \<Rightarrow> DirectActionHandler \<times> publish list" where
  "run h [] = (h, [])"
| "run h (i # rest) =
     (case step h i of
        Inl p \<Rightarrow> (h, [])
      | Inr (h1, out) \<Rightarrow> (case run h1 rest of (h2, out2) \<Rightarrow> (h2, out @ out2)))"

text \<open>A cancel command iterates over \<open>activeOrders\<close>: the entries its environment
  yields must be the entries of the map at that moment.\<close>

fun inputValid :: "DirectActionHandler \<Rightarrow> input \<Rightarrow> bool" where
  "inputValid h (PLCCommand env commandStr) =
     (if isCancelCommand commandStr then rangeOrderValid h env else True)"
| "inputValid h (RobotState decoded) = True"

fun validRun :: "DirectActionHandler \<Rightarrow> input list \<Rightarrow> bool" where
  "validRun h [] = True"
| "validRun h (i # rest) =
     (inputValid h i \<and>
      (case step h i of
         Inl p \<Rightarrow> True
       | Inr (h1, out) \<Rightarrow> validRun h1 rest))"

text \<open>A run in which every order id generated for a direct action is, at that moment,
  not a key of \<open>canceledOrders\<close>.\<close>

fun inputFresh :: "DirectActionHandler \<Rightarrow> input \<Rightarrow> bool" where
  "inputFresh h (PLCCommand env commandStr) =
     (if isCancelCommand commandStr \<or> \<not> isDirectActionCommand commandStr then True
      else generateOrderID env \<notin> dom (canceledOrders h))"
| "inputFresh h (RobotState decoded) = True"

fun freshIDs :: "DirectActionHandler \<Rightarrow> input list \<Rightarrow> bool" where
  "freshIDs h [] = True"
| "freshIDs h (i # rest) =
     (inputFresh h i \<and>
      (case step h i of
         Inl p \<Rightarrow> True
       | Inr (h1, out) \<Rightarrow> freshIDs h1 rest))"

text \<open>The header ids of the robot-bound documents among the published messages, in
  publishing order, read as signed 64-bit integers.\<close>

fun robotHeaderIDs :: "publish list \<Rightarrow> int list" where
  "robotHeaderIDs [] = []"
| "robotHeaderIDs (Publish topic (OrderDoc order) # rest) =
     sint (HeaderID order) # robotHeaderIDs rest"
| "robotHeaderIDs (Publish topic (InstantActionsDoc instantActions) # rest) =
     sint (IHeaderID instantActions) # robotHeaderIDs rest"
| "robotHeaderIDs (Publish topic (Text s) # rest) = robotHeaderIDs rest"

section \<open>The specification's reading of a state report\<close>

text \<open>The status an entry of \<open>actionStates\<close> reports, if it is an object with a string
  \<open>actionStatus\<close>; and the number of entries reporting a given status.\<close>

definition actionStatusOf :: "json \<Rightarrow> string option" where
  "actionStatusOf a =
     (case a of
        JObject kvs \<Rightarrow> assertString (map_of kvs ''actionStatus'')
      | _ \<Rightarrow> None)"

definition statusCount :: "json list \<Rightarrow> string \<Rightarrow> nat" where
  "statusCount actionStates status =
     length (filter (\<lambda>a. actionStatusOf a = Some status) actionStates)"

text \<open>
  The active-order verdict as the specification words it (priority list of the state
  aggregator), to be compared with \<open>processActionStates\<close>: the status letter of the
  verdict, or \<open>None\<close> when no response is due.
\<close>

definition spec_activeVerdict :: "json list \<Rightarrow> string option" where
  "spec_activeVerdict actionStates =
     (if 0 < statusCount actionStates ''FAILED'' then Some PLCStatusFailed
      else if 0 < statusCount actionStates ''FINISHED''
              \<and> statusCount actionStates ''RUNNING'' = 0
              \<and> statusCount actionStates ''INITIALIZING'' = 0
              \<and> statusCount actionStates ''WAITING'' = 0 then Some PLCStatusSuccess
      else if 0 < statusCount actionStates ''RUNNING'' then Some PLCStatusRunning
      else if 0 < statusCount actionStates ''INITIALIZING'' then Some PLCStatusInitializing
      else if 0 < statusCount actionStates ''WAITING'' then Some PLCStatusWaiting
      else None)"

text \<open>The canceled-order scan stops at the first entry reporting FAILED or FINISHED.\<close>

definition isTerminalStatus :: "json \<Rightarrow> bool" where
  "isTerminalStatus a =
     (actionStatusOf a = Some ''FAILED'' \<or> actionStatusOf a = Some ''FINISHED'')"

section \<open>Concrete inputs\<close>

definition exampleConfig :: Config where
  "exampleConfig =
     \<lparr>PlcResponseTopic = ''bridge/response'', RobotSerialNumber = ''DEX0002'',
      RobotManufacturer = ''Roboligent''\<rparr>"

definition exampleEnv :: CommandEnv where
  "exampleEnv =
     \<lparr>clockOrder = 1, clockNode = 1, clockAction = 1, publishOK = True, rangeOrder = []\<rparr>"

definition exampleHandler :: DirectActionHandler where
  "exampleHandler = NewDirectActionHandler exampleConfig"

definition actionState :: "string \<Rightarrow> json" where
  "actionState status = JObject [(''actionId'', JString ''a1''), (''actionStatus'', JString status)]"

definition stateReport :: "string \<Rightarrow> json list \<Rightarrow> (string \<times> json) list" where
  "stateReport orderID actionStates =
     [(''orderId'', JString orderID), (''actionStates'', JArray actionStates)]"

text \<open>Three commands whose clock readings coincide for the two orders: an order, its
  cancellation, and a second order.\<close>

definition collisionInputs :: "input list" where
  "collisionInputs =
     [PLCCommand exampleEnv ''A:I'',
      PLCCommand (exampleEnv\<lparr>rangeOrder := [(''0000000000000001'', ''A:I'')]\<rparr>) ''A:C'',
      PLCCommand exampleEnv ''B:I'']"

text \<open>The entries of a report's \<open>actionStates\<close>; none when the field is missing or is
  not an array.\<close>

definition reportedActions :: "(string \<times> json) list \<Rightarrow> json list" where
  "reportedActions stateMsg =
     (case assertArray (map_of stateMsg ''actionStates'') of
        Some actionStates \<Rightarrow> actionStates
      | None \<Rightarrow> [])"

text \<open>A handler with one order in flight, and one with that order canceled.\<close>

definition activeHandler :: DirectActionHandler where
  "activeHandler =
     exampleHandler\<lparr>activeOrders := [''0000000000000001'' \<mapsto> ''PICK:I''],
                    headerIDCounter := 1\<rparr>"

definition canceledHandler :: DirectActionHandler where
  "canceledHandler =
     exampleHandler\<lparr>canceledOrders := [''0000000000000001'' \<mapsto> ''PICK:C''],
                    headerIDCounter := 2\<rparr>"

definition activeEnv :: CommandEnv where
  "activeEnv = exampleEnv\<lparr>rangeOrder := [(''0000000000000001'', ''PICK:I'')]\<rparr>"

text \<open>As many identical inference commands as it takes the \<open>int64\<close> header counter
  to leave its positive range.\<close>

definition wrapInputs :: "input list" where
  "wrapInputs = replicate (2 ^ 63) (PLCCommand exampleEnv ''A:I'')"

text \<open>An order, its cancellation, and a second order made at a later clock reading.\<close>

definition freshInputs :: "input list" where
  "freshInputs =
     [PLCCommand exampleEnv ''A:I'',
      PLCCommand (exampleEnv\<lparr>rangeOrder := [(''0000000000000001'', ''A:I'')]\<rparr>) ''A:C'',
      PLCCommand (exampleEnv\<lparr>clockOrder := 2\<rparr>) ''B:I'']"

text \<open>The handler after the three commands of \<open>collisionInputs\<close>.\<close>

definition collisionHandler :: DirectActionHandler where
  "collisionHandler =
     exampleHandler\<lparr>activeOrders := [''0000000000000001'' \<mapsto> ''B:I''],
                    canceledOrders := [''0000000000000001'' \<mapsto> ''A:C''],
                    headerIDCounter := 3\<rparr>"

section \<open>Splitting and classification\<close>

lemma splitFrom_not_Nil: "splitFrom cur s \<noteq> []"
  by (induction s arbitrary: cur) auto

lemma hd_splitFrom: "hd (splitFrom cur s) = rev cur @ takeWhile (\<lambda>c. c \<noteq> colon) s"
  by (induction s arbitrary: cur) auto

lemma length_splitFrom: "length (splitFrom cur s) = Suc (count_list s colon)"
  by (induction s arbitrary: cur) auto

lemma extractBaseCommand_takeWhile:
  "extractBaseCommand command = takeWhile (\<lambda>c. c \<noteq> colon) command"
proof -
  obtain p ps where "strings_Split command = p # ps"
    using splitFrom_not_Nil [of "[]" command]
    by (cases "strings_Split command") (auto simp: strings_Split_def)
  moreover have "hd (strings_Split command) = takeWhile (\<lambda>c. c \<noteq> colon) command"
    by (simp add: strings_Split_def hd_splitFrom)
  ultimately show ?thesis
    by (simp add: extractBaseCommand_def)
qed

lemma HasSuffix_set: "strings_HasSuffix s suffix \<Longrightarrow> set suffix \<subseteq> set s"
  unfolding strings_HasSuffix_def by (metis set_drop_subset)

lemma HasPrefix_set: "strings_HasPrefix s pre \<Longrightarrow> set pre \<subseteq> set s"
  unfolding strings_HasPrefix_def by (metis set_take_subset)

lemma Contains_set: "strings_Contains s substr \<Longrightarrow> set substr \<subseteq> set s"
proof (induction s)
  case Nil
  then show ?case by simp
next
  case (Cons c cs)
  then show ?case
    using HasPrefix_set [of "c # cs" substr] by auto
qed

lemma isDirectActionCommand_colon: "isDirectActionCommand s \<Longrightarrow> colon \<in> set s"
  unfolding isDirectActionCommand_def
  using HasSuffix_set [of s "'':I''"] Contains_set [of s "'':T''"]
  by (auto simp: colon_def)

lemma count_list_pos: "x \<in> set xs \<Longrightarrow> 0 < count_list xs x"
  by (induction xs) auto

text \<open>
  C10. A command that passes \<open>isDirectActionCommand\<close> (it ends with \<open>:I\<close> or
  contains \<open>:T\<close>) holds a colon, so \<open>strings.Split\<close> gives at least two pieces and
  the guard \<open>len(parts) < 2\<close> of \<open>handleDirectAction\<close> is false: its Failed branch
  cannot be taken for a classified direct action.
\<close>

theorem direct_action_has_two_fields:
  "isDirectActionCommand commandStr \<Longrightarrow> \<not> length (strings_Split commandStr) < 2"
  using isDirectActionCommand_colon [of commandStr] count_list_pos [of colon commandStr]
  by (simp add: strings_Split_def length_splitFrom)

theorem direct_action_has_two_fields_witness:
  "isDirectActionCommand ''PICK:I'' \<and> \<not> length (strings_Split ''PICK:I'') < 2"
proof -
  have d: "isDirectActionCommand ''PICK:I''"
    by (simp add: isDirectActionCommand_def strings_HasSuffix_def)
  show ?thesis
    using d direct_action_has_two_fields [OF d] by simp
qed

text \<open>
  C6. The claim asks that the second piece of a classified direct action be non-empty,
  so that \<open>parts[1][0]\<close> is in range. The command \<open>B::T\<close> is classified as a direct
  action (it contains \<open>:T\<close>), its pieces are \<open>B\<close>, the empty string and \<open>T\<close>, and the
  handler panics with an index out of range on it, whatever the state and environment.
\<close>

theorem empty_second_field_panics:
  "isDirectActionCommand ''B::T''
   \<and> strings_Split ''B::T'' = [''B'', [], ''T'']
   \<and> HandlePLCCommand h env ''B::T'' = Inl IndexOutOfRange"
  by (simp add: HandlePLCCommand_def isCancelCommand_def isDirectActionCommand_def
      strings_HasSuffix_def strings_HasPrefix_def handleDirectAction_def strings_Split_def
      colon_def)

section \<open>Responses and state reports\<close>

lemma sendPLCResponse_text:
  "sendPLCResponse h command status =
     [Publish (PlcResponseTopic (config h))
        (Text (takeWhile (\<lambda>c. c \<noteq> CHR '':'') command @ '':'' @ status))]"
  by (simp add: sendPLCResponse_def ToResponseString_def NewPLCResponse_def
      extractBaseCommand_takeWhile colon_def)

lemma assertObject_actionStatusOf:
  "actionStatusOf a =
     (case assertObject (Some a) of
        Some actionMap \<Rightarrow> assertString (map_of actionMap ''actionStatus'')
      | None \<Rightarrow> None)"
  by (cases a) (simp_all add: actionStatusOf_def)

lemma countStatuses_step:
  "countStatuses (a # rest) sc =
     (case actionStatusOf a of
        Some st \<Rightarrow> countStatuses rest (sc(st := sc st + 1))
      | None \<Rightarrow> countStatuses rest sc)"
  by (simp add: assertObject_actionStatusOf split: option.splits)

lemma countStatuses_statusCount:
  "countStatuses actionStates sc status = sc status + statusCount actionStates status"
proof (induction actionStates arbitrary: sc)
  case Nil
  then show ?case by (simp add: statusCount_def)
next
  case (Cons a rest)
  show ?case
    unfolding countStatuses_step
    by (cases "actionStatusOf a") (auto simp: Cons.IH statusCount_def)
qed

lemma processActionStates_spec:
  "processActionStates h orderID originalCommand actionStates =
     (case spec_activeVerdict actionStates of
        None \<Rightarrow> (h, [])
      | Some v \<Rightarrow>
          (if v = PLCStatusFailed \<or> v = PLCStatusSuccess
           then h\<lparr>activeOrders := (activeOrders h)(orderID := None)\<rparr> else h,
           sendPLCResponse h originalCommand v))"
  by (simp add: processActionStates_def spec_activeVerdict_def countStatuses_statusCount
      Let_def PLCStatusFailed_def PLCStatusSuccess_def PLCStatusRunning_def
      PLCStatusInitializing_def PLCStatusWaiting_def)

lemma HandleRobotState_active:
  assumes "assertString (map_of stateMsg ''orderId'') = Some orderID"
    and "orderID \<noteq> []"
    and "canceledOrders h orderID = None"
    and "activeOrders h orderID = Some originalCommand"
  shows "HandleRobotState h (Some stateMsg) =
           processActionStates h orderID originalCommand (reportedActions stateMsg)"
proof (cases "assertArray (map_of stateMsg ''actionStates'')")
  case None
  have "spec_activeVerdict [] = None"
    by (simp add: spec_activeVerdict_def statusCount_def)
  with None assms show ?thesis
    by (simp add: HandleRobotState_def reportedActions_def processActionStates_spec)
next
  case (Some actionStates)
  with assms show ?thesis
    by (simp add: HandleRobotState_def reportedActions_def)
qed

lemma processCanceledOrderStates_step:
  "processCanceledOrderStates h orderID cmd (a # rest) =
     (if actionStatusOf a = Some ''FAILED'' then
        (h\<lparr>canceledOrders := (canceledOrders h)(orderID := None)\<rparr>,
         sendPLCResponse h cmd PLCStatusFailed)
      else if actionStatusOf a = Some ''FINISHED'' then
        (h\<lparr>canceledOrders := (canceledOrders h)(orderID := None)\<rparr>,
         sendPLCResponse h cmd PLCStatusSuccess)
      else processCanceledOrderStates h orderID cmd rest)"
  by (simp add: assertObject_actionStatusOf split: option.splits)

lemma processCanceledOrderStates_find:
  "processCanceledOrderStates h orderID cmd actionStates =
     (case find isTerminalStatus actionStates of
        None \<Rightarrow> (h, [])
      | Some a \<Rightarrow>
          (h\<lparr>canceledOrders := (canceledOrders h)(orderID := None)\<rparr>,
           sendPLCResponse h cmd
             (if actionStatusOf a = Some ''FAILED'' then PLCStatusFailed
              else PLCStatusSuccess)))"
proof (induction actionStates)
  case Nil
  then show ?case by simp
next
  case (Cons a rest)
  show ?case
    unfolding processCanceledOrderStates_step
    by (simp add: Cons.IH isTerminalStatus_def)
qed

lemma HandleRobotState_canceled:
  assumes "assertString (map_of stateMsg ''orderId'') = Some orderID"
    and "orderID \<noteq> []"
    and "canceledOrders h orderID = Some cancelCommand"
  shows "HandleRobotState h (Some stateMsg) =
           processCanceledOrderStates h orderID cancelCommand (reportedActions stateMsg)"
  using assms
  by (cases "assertArray (map_of stateMsg ''actionStates'')")
     (simp_all add: HandleRobotState_def reportedActions_def)

lemma statusCount_mset:
  "statusCount actionStates status = count (mset (map actionStatusOf actionStates)) (Some status)"
  by (induction actionStates) (auto simp: statusCount_def)

lemma findTargetOrderID_none:
  "\<forall>(orderID, cmd) \<in> set entries. extractBaseCommand cmd \<noteq> base
   \<Longrightarrow> findTargetOrderID entries base = []"
  by (induction entries) auto

section \<open>Command handling\<close>

text \<open>
  C4. Classification of a trimmed command, rules in order. A command ending in \<open>:C\<close>
  is handled as a cancel (whether or not it also contains \<open>:T\<close>), with the piece before
  the first colon as its base command. Otherwise a command ending in \<open>:I\<close> or
  containing \<open>:T\<close> is handled as a direct action. Any other command leaves the handler
  as it was and publishes exactly one message, the Failed response \<open><base>:F\<close> on the
  response topic: nothing goes to the order topic and no map entry is made.
\<close>

theorem command_classification:
  "(strings_HasSuffix s '':C'' \<longrightarrow>
      HandlePLCCommand h env s = Inr (handleCancelCommand h env s)
      \<and> extractBaseCommand s = takeWhile (\<lambda>c. c \<noteq> CHR '':'') s)
   \<and> (\<not> strings_HasSuffix s '':C''
        \<and> (strings_HasSuffix s '':I'' \<or> strings_Contains s '':T'') \<longrightarrow>
      HandlePLCCommand h env s = handleDirectAction h env s)
   \<and> (\<not> strings_HasSuffix s '':C'' \<and> \<not> strings_HasSuffix s '':I''
        \<and> \<not> strings_Contains s '':T'' \<longrightarrow>
      HandlePLCCommand h env s =
        Inr (h, [Publish (PlcResponseTopic (config h))
                   (Text (takeWhile (\<lambda>c. c \<noteq> CHR '':'') s @ '':F''))]))"
  by (simp add: HandlePLCCommand_def isCancelCommand_def isDirectActionCommand_def
      sendPLCResponse_text PLCStatusFailed_def extractBaseCommand_takeWhile colon_def)

theorem command_classification_witness:
  "strings_HasSuffix ''A:T:C'' '':C'' \<and> strings_Contains ''A:T:C'' '':T''
   \<and> HandlePLCCommand exampleHandler exampleEnv ''A:T:C'' =
       Inr (handleCancelCommand exampleHandler exampleEnv ''A:T:C'')
   \<and> extractBaseCommand ''A:T:C'' = ''A''
   \<and> \<not> strings_HasSuffix ''MOVE:T:L'' '':C'' \<and> strings_Contains ''MOVE:T:L'' '':T''
   \<and> HandlePLCCommand exampleHandler exampleEnv ''MOVE:T:L'' =
       handleDirectAction exampleHandler exampleEnv ''MOVE:T:L''
   \<and> \<not> strings_HasSuffix ''FOO:X'' '':C'' \<and> \<not> strings_HasSuffix ''FOO:X'' '':I''
   \<and> \<not> strings_Contains ''FOO:X'' '':T''
   \<and> HandlePLCCommand exampleHandler exampleEnv ''FOO:X'' =
       Inr (exampleHandler, [Publish ''bridge/response'' (Text ''FOO:F'')])"
  using command_classification [of "''A:T:C''" exampleHandler exampleEnv]
    command_classification [of "''MOVE:T:L''" exampleHandler exampleEnv]
    command_classification [of "''FOO:X''" exampleHandler exampleEnv]
  by (simp add: strings_HasSuffix_def strings_HasPrefix_def exampleHandler_def
      NewDirectActionHandler_def exampleConfig_def)

text \<open>
  C7. A cancel command whose base command is the base of no entry of
  \<open>activeOrders\<close>: the handler is left as it was (both maps and the header counter)
  and the only message published is the Failed response; no instant action is sent.
\<close>

theorem cancel_without_target_fails:
  assumes "strings_HasSuffix commandStr '':C''"
    and "rangeOrderValid h env"
    and "\<forall>orderID cmd. activeOrders h orderID = Some cmd \<longrightarrow>
           extractBaseCommand cmd \<noteq> extractBaseCommand commandStr"
  shows "HandlePLCCommand h env commandStr =
           Inr (h, [Publish (PlcResponseTopic (config h))
                      (Text (extractBaseCommand commandStr @ '':F''))])"
proof -
  have "findTargetOrderID (rangeOrder env) (extractBaseCommand commandStr) = []"
  proof (rule findTargetOrderID_none, clarify)
    fix orderID cmd
    assume "(orderID, cmd) \<in> set (rangeOrder env)"
      and eq: "extractBaseCommand cmd = extractBaseCommand commandStr"
    with assms(2) have "activeOrders h orderID = Some cmd"
      unfolding rangeOrderValid_def by (metis map_of_eq_Some_iff)
    with assms(3) eq show False
      by blast
  qed
  with assms(1) show ?thesis
    by (simp add: HandlePLCCommand_def isCancelCommand_def handleCancelCommand_def
        sendPLCResponse_text PLCStatusFailed_def extractBaseCommand_takeWhile colon_def)
qed

theorem cancel_without_target_fails_witness:
  "strings_HasSuffix ''MOVE:C'' '':C'' \<and> rangeOrderValid activeHandler activeEnv
   \<and> activeOrders activeHandler ''0000000000000001'' = Some ''PICK:I''
   \<and> HandlePLCCommand activeHandler activeEnv ''MOVE:C'' =
       Inr (activeHandler, [Publish ''bridge/response'' (Text ''MOVE:F'')])"
proof -
  have suffix: "strings_HasSuffix ''MOVE:C'' '':C''"
    by (simp add: strings_HasSuffix_def)
  have valid: "rangeOrderValid activeHandler activeEnv"
    by (simp add: rangeOrderValid_def activeHandler_def activeEnv_def exampleEnv_def)
  have base: "extractBaseCommand ''MOVE:C'' = ''MOVE''"
    by (simp add: extractBaseCommand_takeWhile colon_def)
  have other: "\<forall>orderID cmd. activeOrders activeHandler orderID = Some cmd \<longrightarrow>
                 extractBaseCommand cmd \<noteq> extractBaseCommand ''MOVE:C''"
    by (auto simp: activeHandler_def base extractBaseCommand_takeWhile colon_def
        split: if_splits)
  show ?thesis
    using suffix valid cancel_without_target_fails [OF suffix valid other]
    by (simp add: base activeHandler_def exampleHandler_def NewDirectActionHandler_def
        exampleConfig_def)
qed

section \<open>State aggregation\<close>

text \<open>
  C1, as amended. A state report whose order id is a key of \<open>activeOrders\<close> and not
  a key of \<open>canceledOrders\<close>, which is looked up first (the id is not empty, as every
  generated id is). The responses published are decided by the counts of the reported statuses,
  by priority: Failed if any entry is FAILED; else Success if any is FINISHED and none
  is RUNNING, INITIALIZING or WAITING; else Running, Initializing, Waiting for the first
  of these statuses that occurs; and no response at all when none of the five occurs.
\<close>

theorem active_verdict_by_priority:
  assumes "assertString (map_of stateMsg ''orderId'') = Some orderID"
    and "orderID \<noteq> []"
    and "canceledOrders h orderID = None"
    and "activeOrders h orderID = Some originalCommand"
  shows "snd (HandleRobotState h (Some stateMsg)) =
           (case spec_activeVerdict (reportedActions stateMsg) of
              None \<Rightarrow> []
            | Some v \<Rightarrow> sendPLCResponse h originalCommand v)"
  by (simp add: HandleRobotState_active [OF assms] processActionStates_spec
      split: option.splits)

theorem active_verdict_by_priority_witness:
  "activeOrders activeHandler ''0000000000000001'' = Some ''PICK:I''
   \<and> canceledOrders activeHandler ''0000000000000001'' = None
   \<and> snd (HandleRobotState activeHandler
         (Some (stateReport ''0000000000000001''
                  [actionState ''FINISHED'', actionState ''RUNNING''])))
     = [Publish ''bridge/response'' (Text ''PICK:R'')]
   \<and> snd (HandleRobotState activeHandler
         (Some (stateReport ''0000000000000001''
                  [actionState ''FINISHED'', actionState ''PAUSED''])))
     = [Publish ''bridge/response'' (Text ''PICK:S'')]"
proof -
  let ?oid = "''0000000000000001''"
  have oid: "assertString (map_of (stateReport ?oid as) ''orderId'') = Some ?oid" for as
    by (simp add: stateReport_def)
  have ne: "?oid \<noteq> []"
    by simp
  have c: "canceledOrders activeHandler ?oid = None"
    by (simp add: activeHandler_def exampleHandler_def NewDirectActionHandler_def)
  have a: "activeOrders activeHandler ?oid = Some ''PICK:I''"
    by (simp add: activeHandler_def)
  show ?thesis
    using active_verdict_by_priority [OF oid ne c a,
        of "[actionState ''FINISHED'', actionState ''RUNNING'']"]
      active_verdict_by_priority [OF oid ne c a,
        of "[actionState ''FINISHED'', actionState ''PAUSED'']"]
    by (simp add: spec_activeVerdict_def statusCount_def actionStatusOf_def actionState_def
        reportedActions_def stateReport_def sendPLCResponse_text activeHandler_def
        exampleHandler_def NewDirectActionHandler_def exampleConfig_def
        PLCStatusRunning_def PLCStatusSuccess_def)
qed

text \<open>
  C2. A state report whose order id is a key of \<open>canceledOrders\<close>. The entries are
  scanned in report order up to the first one whose status is FAILED or FINISHED; that
  entry decides the response to the cancel command that was stored (Failed for FAILED,
  Success for FINISHED), the id leaves \<open>canceledOrders\<close>, and nothing after it is
  looked at. Entries with another status, or none, are passed over; when no entry is
  FAILED or FINISHED nothing is published and nothing changes.
\<close>

theorem canceled_scan_first_terminal:
  assumes "assertString (map_of stateMsg ''orderId'') = Some orderID"
    and "orderID \<noteq> []"
    and "canceledOrders h orderID = Some cancelCommand"
  shows "HandleRobotState h (Some stateMsg) =
           (case find isTerminalStatus (reportedActions stateMsg) of
              None \<Rightarrow> (h, [])
            | Some a \<Rightarrow>
                (h\<lparr>canceledOrders := (canceledOrders h)(orderID := None)\<rparr>,
                 sendPLCResponse h cancelCommand
                   (if actionStatusOf a = Some ''FAILED'' then PLCStatusFailed
                    else PLCStatusSuccess)))"
  by (simp add: HandleRobotState_canceled [OF assms] processCanceledOrderStates_find)

theorem canceled_scan_first_terminal_witness:
  "canceledOrders canceledHandler ''0000000000000001'' = Some ''PICK:C''
   \<and> HandleRobotState canceledHandler
     (Some (stateReport ''0000000000000001''
              [actionState ''RUNNING'', actionState ''FAILED'', actionState ''FINISHED'']))
   = (canceledHandler\<lparr>canceledOrders := Map.empty\<rparr>,
      [Publish ''bridge/response'' (Text ''PICK:F'')])"
proof -
  let ?oid = "''0000000000000001''"
  let ?as = "[actionState ''RUNNING'', actionState ''FAILED'', actionState ''FINISHED'']"
  have oid: "assertString (map_of (stateReport ?oid ?as) ''orderId'') = Some ?oid"
    by (simp add: stateReport_def)
  have ne: "?oid \<noteq> []"
    by simp
  have c: "canceledOrders canceledHandler ?oid = Some ''PICK:C''"
    by (simp add: canceledHandler_def)
  show ?thesis
    using canceled_scan_first_terminal [OF oid ne c]
    by (simp add: isTerminalStatus_def actionStatusOf_def actionState_def
        reportedActions_def stateReport_def sendPLCResponse_text canceledHandler_def
        exampleHandler_def NewDirectActionHandler_def exampleConfig_def
        PLCStatusFailed_def)
qed

text \<open>
  C3, as amended. The effect on the maps of a state report whose order id is a key of
  \<open>activeOrders\<close> and not a key of \<open>canceledOrders\<close>, which is looked up first (the
  id is not empty). When the response published is the Failed or the Success response, the
  report's order id is removed from \<open>activeOrders\<close> and every other entry stays;
  otherwise (Waiting, Initializing, Running, or no response) \<open>activeOrders\<close> is
  unchanged. \<open>canceledOrders\<close> is unchanged in every case.
\<close>

theorem active_report_frame:
  assumes "assertString (map_of stateMsg ''orderId'') = Some orderID"
    and "orderID \<noteq> []"
    and "canceledOrders h orderID = None"
    and "activeOrders h orderID = Some originalCommand"
  shows "canceledOrders (fst (HandleRobotState h (Some stateMsg))) = canceledOrders h
         \<and> activeOrders (fst (HandleRobotState h (Some stateMsg))) =
             (if snd (HandleRobotState h (Some stateMsg)) =
                   sendPLCResponse h originalCommand PLCStatusFailed
                 \<or> snd (HandleRobotState h (Some stateMsg)) =
                   sendPLCResponse h originalCommand PLCStatusSuccess
              then (activeOrders h)(orderID := None)
              else activeOrders h)"
proof -
  have v: "spec_activeVerdict as = Some v \<Longrightarrow>
           v = PLCStatusFailed \<or> v = PLCStatusSuccess \<or> v = PLCStatusRunning
           \<or> v = PLCStatusInitializing \<or> v = PLCStatusWaiting" for as v
    by (auto simp: spec_activeVerdict_def split: if_splits)
  show ?thesis
    using v [of "reportedActions stateMsg"]
    by (cases "spec_activeVerdict (reportedActions stateMsg)")
       (auto simp: HandleRobotState_active [OF assms] processActionStates_spec
          sendPLCResponse_text PLCStatusFailed_def PLCStatusSuccess_def
          PLCStatusRunning_def PLCStatusInitializing_def PLCStatusWaiting_def)
qed

theorem active_report_frame_witness:
  "activeOrders activeHandler ''0000000000000001'' = Some ''PICK:I''
   \<and> canceledOrders activeHandler ''0000000000000001'' = None
   \<and> activeOrders (fst (HandleRobotState activeHandler
       (Some (stateReport ''0000000000000001'' [actionState ''FINISHED''])))) = Map.empty
   \<and> activeOrders (fst (HandleRobotState activeHandler
       (Some (stateReport ''0000000000000001'' [actionState ''WAITING''])))) =
       activeOrders activeHandler
   \<and> canceledOrders (fst (HandleRobotState activeHandler
       (Some (stateReport ''0000000000000001'' [actionState ''FINISHED''])))) =
       canceledOrders activeHandler"
proof -
  let ?oid = "''0000000000000001''"
  have oid: "assertString (map_of (stateReport ?oid as) ''orderId'') = Some ?oid" for as
    by (simp add: stateReport_def)
  have ne: "?oid \<noteq> []"
    by simp
  have c: "canceledOrders activeHandler ?oid = None"
    by (simp add: activeHandler_def exampleHandler_def NewDirectActionHandler_def)
  have a: "activeOrders activeHandler ?oid = Some ''PICK:I''"
    by (simp add: activeHandler_def)
  have fin: "snd (HandleRobotState activeHandler
                (Some (stateReport ?oid [actionState ''FINISHED''])))
             = sendPLCResponse activeHandler ''PICK:I'' PLCStatusSuccess"
    by (simp add: HandleRobotState_def stateReport_def actionState_def activeHandler_def
        exampleHandler_def NewDirectActionHandler_def processActionStates_def)
  have wait: "snd (HandleRobotState activeHandler
                (Some (stateReport ?oid [actionState ''WAITING''])))
             = sendPLCResponse activeHandler ''PICK:I'' PLCStatusWaiting"
    by (simp add: HandleRobotState_def stateReport_def actionState_def activeHandler_def
        exampleHandler_def NewDirectActionHandler_def processActionStates_def)
  have removed: "activeOrders (fst (HandleRobotState activeHandler
                    (Some (stateReport ?oid [actionState ''FINISHED''])))) =
                 (activeOrders activeHandler)(?oid := None)"
    using active_report_frame [OF oid ne c a, of "[actionState ''FINISHED'']"]
    by (simp add: fin)
  have kept: "activeOrders (fst (HandleRobotState activeHandler
                 (Some (stateReport ?oid [actionState ''WAITING''])))) =
              activeOrders activeHandler"
    using active_report_frame [OF oid ne c a, of "[actionState ''WAITING'']"]
    by (simp add: wait sendPLCResponse_text PLCStatusFailed_def PLCStatusSuccess_def
        PLCStatusWaiting_def)
  have frame: "canceledOrders (fst (HandleRobotState activeHandler
                  (Some (stateReport ?oid [actionState ''FINISHED''])))) =
               canceledOrders activeHandler"
    using active_report_frame [OF oid ne c a, of "[actionState ''FINISHED'']"]
    by simp
  show ?thesis
    by (simp add: removed kept frame a c) (simp add: activeHandler_def)
qed

text \<open>
  C9. The active-order reduction on two lists of action states that report the same
  multiset of statuses (as two orderings of one list do): the same handler state
  results and the same responses are published.
\<close>

theorem verdict_depends_on_status_multiset:
  assumes "mset (map actionStatusOf actionStates1) = mset (map actionStatusOf actionStates2)"
  shows "processActionStates h orderID originalCommand actionStates1 =
         processActionStates h orderID originalCommand actionStates2"
proof -
  have "statusCount actionStates1 = statusCount actionStates2"
    using assms by (simp add: fun_eq_iff statusCount_mset)
  then have "spec_activeVerdict actionStates1 = spec_activeVerdict actionStates2"
    by (simp add: spec_activeVerdict_def)
  then show ?thesis
    by (simp add: processActionStates_spec)
qed

theorem verdict_depends_on_status_multiset_witness:
  "mset (map actionStatusOf [actionState ''RUNNING'', actionState ''FINISHED'', JOther]) =
   mset (map actionStatusOf [JOther, actionState ''FINISHED'', actionState ''RUNNING''])
   \<and> processActionStates activeHandler ''0000000000000001'' ''PICK:I''
        [actionState ''RUNNING'', actionState ''FINISHED'', JOther] =
      processActionStates activeHandler ''0000000000000001'' ''PICK:I''
        [JOther, actionState ''FINISHED'', actionState ''RUNNING'']"
proof -
  have m: "mset (map actionStatusOf [actionState ''RUNNING'', actionState ''FINISHED'', JOther]) =
           mset (map actionStatusOf [JOther, actionState ''FINISHED'', actionState ''RUNNING''])"
    by (simp add: actionStatusOf_def actionState_def add_mset_commute)
  show ?thesis
    using m verdict_depends_on_status_multiset [OF m] by simp
qed

section \<open>Effects of one callback\<close>

lemma robotHeaderIDs_append:
  "robotHeaderIDs (xs @ ys) = robotHeaderIDs xs @ robotHeaderIDs ys"
  by (induction xs rule: robotHeaderIDs.induct) simp_all

lemma robotHeaderIDs_response: "robotHeaderIDs (sendPLCResponse h command status) = []"
  by (simp add: sendPLCResponse_def)

lemma HandleRobotState_cases:
  "HandleRobotState h decoded = (h, [])
   \<or> (\<exists>orderID cmd actionStates.
         HandleRobotState h decoded = processActionStates h orderID cmd actionStates)
   \<or> (\<exists>orderID cmd actionStates.
         HandleRobotState h decoded = processCanceledOrderStates h orderID cmd actionStates)"
  unfolding HandleRobotState_def
  by (simp split: option.splits) blast

lemma processActionStates_effect:
  assumes "processActionStates h orderID cmd actionStates = (h1, out)"
  shows "robotHeaderIDs out = [] \<and> headerIDCounter h1 = headerIDCounter h
         \<and> canceledOrders h1 = canceledOrders h
         \<and> dom (activeOrders h1) \<subseteq> dom (activeOrders h)"
  using assms
  by (auto simp: processActionStates_spec robotHeaderIDs_response
      split: option.splits if_splits)

lemma processCanceledOrderStates_effect:
  assumes "processCanceledOrderStates h orderID cmd actionStates = (h1, out)"
  shows "robotHeaderIDs out = [] \<and> headerIDCounter h1 = headerIDCounter h
         \<and> activeOrders h1 = activeOrders h
         \<and> dom (canceledOrders h1) \<subseteq> dom (canceledOrders h)"
  using assms
  by (auto simp: processCanceledOrderStates_find robotHeaderIDs_response
      split: option.splits if_splits)

lemma HandleRobotState_effect:
  assumes "HandleRobotState h decoded = (h1, out)"
  shows "robotHeaderIDs out = [] \<and> headerIDCounter h1 = headerIDCounter h
         \<and> dom (activeOrders h1) \<subseteq> dom (activeOrders h)
         \<and> dom (canceledOrders h1) \<subseteq> dom (canceledOrders h)"
  using HandleRobotState_cases [of h decoded] assms
    processActionStates_effect [of h _ _ _ h1 out]
    processCanceledOrderStates_effect [of h _ _ _ h1 out]
  by (elim disjE exE) auto

lemma handleCancelCommand_effect:
  assumes "handleCancelCommand h env commandStr = (h1, out)"
  shows "(robotHeaderIDs out = [] \<and> headerIDCounter h1 = headerIDCounter h
          \<or> robotHeaderIDs out = [sint (headerIDCounter h + 1)]
             \<and> headerIDCounter h1 = headerIDCounter h + 1)
         \<and> (activeOrders h1 = activeOrders h \<and> canceledOrders h1 = canceledOrders h
            \<or> (\<exists>target. activeOrders h1 = (activeOrders h)(target := None)
                  \<and> canceledOrders h1 = (canceledOrders h)(target \<mapsto> commandStr)))"
proof -
  let ?target = "findTargetOrderID (rangeOrder env) (extractBaseCommand commandStr)"
  have "(robotHeaderIDs out = [] \<and> headerIDCounter h1 = headerIDCounter h
          \<or> robotHeaderIDs out = [sint (headerIDCounter h + 1)]
             \<and> headerIDCounter h1 = headerIDCounter h + 1)
        \<and> (activeOrders h1 = activeOrders h \<and> canceledOrders h1 = canceledOrders h
            \<or> activeOrders h1 = (activeOrders h)(?target := None)
              \<and> canceledOrders h1 = (canceledOrders h)(?target \<mapsto> commandStr))"
    using assms
    unfolding handleCancelCommand_def sendCancelOrder_def getNextHeaderID_def Let_def
    by (auto simp: robotHeaderIDs_response robotHeaderIDs_append
        NewInstantActionsMessage_def split: if_splits)
  then show ?thesis
    by blast
qed

lemma sendDirectActionOrder_effect:
  assumes "sendDirectActionOrder h env baseCommand commandType armParam = (h1, pubs, res)"
  shows "activeOrders h1 = activeOrders h \<and> canceledOrders h1 = canceledOrders h
         \<and> (robotHeaderIDs pubs = [] \<and> headerIDCounter h1 = headerIDCounter h
              \<and> (\<exists>err. res = Inl err)
            \<or> robotHeaderIDs pubs = [sint (headerIDCounter h + 1)]
              \<and> headerIDCounter h1 = headerIDCounter h + 1
              \<and> (res = Inl PublishFailed \<or> res = Inr (generateOrderID env)))"
  using assms
  unfolding sendDirectActionOrder_def buildOrder_def publishOrder_def getNextHeaderID_def
    NewOrderMessage_def Let_def
  by (auto split: if_splits prod.splits)

lemma handleDirectAction_effect:
  assumes "handleDirectAction h env commandStr = Inr (h1, out)"
  shows "(robotHeaderIDs out = [] \<and> headerIDCounter h1 = headerIDCounter h
          \<or> robotHeaderIDs out = [sint (headerIDCounter h + 1)]
             \<and> headerIDCounter h1 = headerIDCounter h + 1)
         \<and> canceledOrders h1 = canceledOrders h
         \<and> (activeOrders h1 = activeOrders h
            \<or> activeOrders h1 = (activeOrders h)(generateOrderID env \<mapsto> commandStr))"
proof (cases "length (strings_Split commandStr) < 2")
  case True
  with assms show ?thesis
    by (auto simp: handleDirectAction_def robotHeaderIDs_response)
next
  case False
  then obtain cmdType tl1 where p1: "strings_Split commandStr ! 1 = cmdType # tl1"
    using assms by (cases "strings_Split commandStr ! 1") (auto simp: handleDirectAction_def)
  let ?arm = "if length (strings_Split commandStr) \<ge> 3 then strings_Split commandStr ! 2 else []"
  obtain h2 pubs res where
    s: "sendDirectActionOrder h env (strings_Split commandStr ! 0) cmdType ?arm = (h2, pubs, res)"
    by (metis prod_cases3)
  note e = sendDirectActionOrder_effect [OF s]
  from assms False p1 s e show ?thesis
    by (cases res)
       (auto simp: handleDirectAction_def Let_def robotHeaderIDs_append
          robotHeaderIDs_response)
qed

lemma step_headers:
  assumes "step h i = Inr (h1, out)"
  shows "robotHeaderIDs out = [] \<and> headerIDCounter h1 = headerIDCounter h
         \<or> robotHeaderIDs out = [sint (headerIDCounter h + 1)]
            \<and> headerIDCounter h1 = headerIDCounter h + 1"
proof (cases i)
  case (PLCCommand env commandStr)
  with assms show ?thesis
    using handleCancelCommand_effect [of h env commandStr h1 out]
      handleDirectAction_effect [of h env commandStr h1 out]
    by (auto simp: HandlePLCCommand_def robotHeaderIDs_response split: if_splits)
next
  case (RobotState decoded)
  with assms show ?thesis
    using HandleRobotState_effect [of h decoded h1 out] by auto
qed

lemma step_disjoint:
  assumes "step h i = Inr (h1, out)"
    and "inputFresh h i"
    and "dom (activeOrders h) \<inter> dom (canceledOrders h) = {}"
  shows "dom (activeOrders h1) \<inter> dom (canceledOrders h1) = {}"
proof (cases i)
  case (PLCCommand env commandStr)
  show ?thesis
  proof (cases "isCancelCommand commandStr")
    case True
    with PLCCommand assms(1) have "handleCancelCommand h env commandStr = (h1, out)"
      by (simp add: HandlePLCCommand_def)
    from handleCancelCommand_effect [OF this] assms(3) show ?thesis
      by (auto simp: disjoint_iff domIff split: if_splits)
  next
    case False
    show ?thesis
    proof (cases "isDirectActionCommand commandStr")
      case True
      with False PLCCommand assms(1) have "handleDirectAction h env commandStr = Inr (h1, out)"
        by (simp add: HandlePLCCommand_def)
      from handleDirectAction_effect [OF this] assms(2,3) PLCCommand False True show ?thesis
        by (auto simp: disjoint_iff domIff split: if_splits)
    next
      case nd: False
      with False PLCCommand assms(1,3) show ?thesis
        by (auto simp: HandlePLCCommand_def)
    qed
  qed
next
  case (RobotState decoded)
  with assms(1) have "HandleRobotState h decoded = (h1, out)"
    by simp
  from HandleRobotState_effect [OF this] assms(3) show ?thesis
    by blast
qed

section \<open>Runs\<close>

lemma run_disjoint:
  assumes "dom (activeOrders h) \<inter> dom (canceledOrders h) = {}"
    and "freshIDs h inputs"
  shows "dom (activeOrders (fst (run h inputs))) \<inter> dom (canceledOrders (fst (run h inputs))) = {}"
  using assms
proof (induction inputs arbitrary: h)
  case Nil
  then show ?case by simp
next
  case (Cons i rest)
  show ?case
  proof (cases "step h i")
    case (Inl p)
    with Cons.prems show ?thesis by simp
  next
    case (Inr r)
    obtain h1 out where r: "r = (h1, out)"
      by (cases r)
    with Inr have s: "step h i = Inr (h1, out)"
      by simp
    from Cons.prems s have "inputFresh h i" and f: "freshIDs h1 rest"
      by simp_all
    with s Cons.prems(1) have "dom (activeOrders h1) \<inter> dom (canceledOrders h1) = {}"
      using step_disjoint by blast
    from Cons.IH [OF this f] s show ?thesis
      by (cases "run h1 rest") simp
  qed
qed

lemma upt_shift: "[1..<Suc (Suc n)] = 1 # map Suc [1..<Suc n]"
  by (simp add: upt_conv_Cons map_Suc_upt del: upt_Suc)

lemma run_headers:
  "\<exists>n. robotHeaderIDs (snd (run h inputs)) =
          map (\<lambda>k. sint (headerIDCounter h + of_nat k)) [1..<Suc n]
        \<and> headerIDCounter (fst (run h inputs)) = headerIDCounter h + of_nat n"
proof (induction inputs arbitrary: h)
  case Nil
  show ?case
    by (rule exI [of _ 0]) simp
next
  case (Cons i rest)
  show ?case
  proof (cases "step h i")
    case (Inl p)
    then show ?thesis
      by (intro exI [of _ 0]) simp
  next
    case (Inr r)
    obtain h1 out where r: "r = (h1, out)"
      by (cases r)
    with Inr have s: "step h i = Inr (h1, out)"
      by simp
    obtain n where
      n: "robotHeaderIDs (snd (run h1 rest)) =
            map (\<lambda>k. sint (headerIDCounter h1 + of_nat k)) [1..<Suc n]"
        "headerIDCounter (fst (run h1 rest)) = headerIDCounter h1 + of_nat n"
      using Cons.IH [of h1] by blast
    have run_eq: "run h (i # rest) = (fst (run h1 rest), out @ snd (run h1 rest))"
      using s by (simp split: prod.splits)
    from step_headers [OF s] show ?thesis
    proof
      assume "robotHeaderIDs out = [] \<and> headerIDCounter h1 = headerIDCounter h"
      with n run_eq show ?thesis
        by (intro exI [of _ n]) (simp add: robotHeaderIDs_append)
    next
      assume a: "robotHeaderIDs out = [sint (headerIDCounter h + 1)]
                 \<and> headerIDCounter h1 = headerIDCounter h + 1"
      have "robotHeaderIDs (snd (run h (i # rest))) =
              sint (headerIDCounter h + 1)
                # map (\<lambda>k. sint (headerIDCounter h + 1 + of_nat k)) [1..<Suc n]"
        using a n run_eq by (simp add: robotHeaderIDs_append)
      also have "\<dots> = map (\<lambda>k. sint (headerIDCounter h + of_nat k)) [1..<Suc (Suc n)]"
        unfolding upt_shift by (simp add: comp_def add.assoc del: upt_Suc)
      finally show ?thesis
        using a n run_eq by (intro exI [of _ "Suc n"]) (simp add: add.assoc)
    qed
  qed
qed

lemma sint_small: "k < 2 ^ 63 \<Longrightarrow> sint (of_nat k :: 64 word) = int k"
proof -
  assume k: "k < 2 ^ 63"
  have "(of_nat k :: 64 word) = word_of_int (int k)"
    by simp
  then have "sint (of_nat k :: 64 word) = signed_take_bit 63 (int k)"
    by (simp only: sint_sbintrunc') simp
  also have "\<dots> = int k"
    using k by (intro signed_take_bit_int_eq_self) auto
  finally show ?thesis .
qed

lemma sorted_small_headers:
  assumes "n < 2 ^ 63"
  shows "sorted_wrt (<) (map (\<lambda>k. sint (of_nat k :: 64 word)) [1..<Suc n])"
proof -
  have lt: "sint (of_nat i :: 64 word) < sint (of_nat j :: 64 word)"
    if "i < j" "j \<le> n" for i j
  proof -
    from that assms have "i < 2 ^ 63" "j < 2 ^ 63"
      by linarith+
    with that(1) show ?thesis
      by (simp only: sint_small of_nat_less_iff)
  qed
  have "\<forall>i j. i < j \<longrightarrow> j < length [1..<Suc n] \<longrightarrow>
          sint (of_nat ([1..<Suc n] ! i) :: 64 word)
          < sint (of_nat ([1..<Suc n] ! j) :: 64 word)"
  proof (intro allI impI)
    fix i j
    assume ij: "i < j" and j: "j < length [1..<Suc n]"
    then have nth: "[1..<Suc n] ! i = Suc i" "[1..<Suc n] ! j = Suc j" and le: "Suc j \<le> n"
      by (simp_all del: upt_Suc)
    from ij have "Suc i < Suc j"
      by simp
    then have "sint (of_nat (Suc i) :: 64 word) < sint (of_nat (Suc j) :: 64 word)"
      using le by (rule lt)
    then show "sint (of_nat ([1..<Suc n] ! i) :: 64 word)
               < sint (of_nat ([1..<Suc n] ! j) :: 64 word)"
      by (simp only: nth)
  qed
  then have "sorted_wrt (\<lambda>x y. sint (of_nat x :: 64 word) < sint (of_nat y :: 64 word))
               [1..<Suc n]"
    by (simp only: sorted_wrt_iff_nth_less)
  then show ?thesis
    by (simp only: sorted_wrt_map)
qed

text \<open>
  C8. In a run from a fresh handler, the header ids of the documents handed to
  \<open>Publish\<close> for the robot (orders and cancel instant actions, in publishing order,
  those whose \<open>Publish\<close> fails included) are strictly increasing, each greater than
  all before it. The side condition is the range of the \<open>int64\<close> counter: fewer than
  \<open>2^63\<close> such documents built, which every process meets, a callback building one
  document at most.
\<close>

theorem header_ids_increase_before_wrap:
  assumes "length (robotHeaderIDs (snd (run (NewDirectActionHandler cfg) inputs))) < 2 ^ 63"
  shows "sorted_wrt (<) (robotHeaderIDs (snd (run (NewDirectActionHandler cfg) inputs)))"
proof -
  obtain n where
    n: "robotHeaderIDs (snd (run (NewDirectActionHandler cfg) inputs)) =
          map (\<lambda>k. sint (headerIDCounter (NewDirectActionHandler cfg) + of_nat k)) [1..<Suc n]"
    using run_headers [of "NewDirectActionHandler cfg" inputs] by blast
  then have "length (robotHeaderIDs (snd (run (NewDirectActionHandler cfg) inputs))) = n"
    by (simp del: upt_Suc)
  with assms have "n < 2 ^ 63"
    by simp
  from sorted_small_headers [OF this] n show ?thesis
    by (simp add: NewDirectActionHandler_def del: upt_Suc)
qed

section \<open>Concrete identifiers\<close>

lemma hexFixed_numeral:
  "hexFixed (numeral k) n = hexFixed (pred_numeral k) (n div 16) @ [hexDigit (n mod 16)]"
  using hexFixed.simps(2) [of "pred_numeral k" n]
  by (simp only: numeral_eq_Suc [symmetric])

lemma hexFixed_Suc_0: "hexFixed (Suc 0) n = [hexDigit (n mod 16)]"
  by simp

lemma fmt_016x_1: "fmt_016x 1 = ''0000000000000001''"
  by (simp add: fmt_016x_def hexFixed_numeral hexFixed_Suc_0 hexDigit_def
      del: hexFixed.simps)

lemma fmt_016x_2: "fmt_016x 2 = ''0000000000000002''"
  by (simp add: fmt_016x_def hexFixed_numeral hexFixed_Suc_0 hexDigit_def
      del: hexFixed.simps)

lemma buildOrder_effect:
  "fst (buildOrder h orderID nodeID actionID baseCommand actionType actionParameters) =
     h\<lparr>headerIDCounter := headerIDCounter h + 1\<rparr>
   \<and> HeaderID (snd (buildOrder h orderID nodeID actionID baseCommand actionType
                      actionParameters)) = headerIDCounter h + 1"
  by (simp add: buildOrder_def getNextHeaderID_def NewOrderMessage_def Let_def)

text \<open>An inference command with a one-colon payload, when the order is published.\<close>

lemma inference_step:
  assumes "strings_Split commandStr = [baseCommand, ''I'']"
    and "\<not> isCancelCommand commandStr"
    and "isDirectActionCommand commandStr"
    and "publishOK env"
  shows "HandlePLCCommand h env commandStr =
           Inr (h\<lparr>headerIDCounter := headerIDCounter h + 1,
                   activeOrders := (activeOrders h)(generateOrderID env \<mapsto> commandStr)\<rparr>,
                [Publish (orderTopic (config h))
                   (OrderDoc (snd (buildOrder h (generateOrderID env) (generateNodeID env)
                      (generateActionID env) baseCommand ''Roboligent Robin - Inference''
                      [\<lparr>Key = ''inference_name'', Value = baseCommand\<rparr>])))])"
proof -
  have "sendDirectActionOrder h env baseCommand CHR ''I'' [] =
          (h\<lparr>headerIDCounter := headerIDCounter h + 1\<rparr>,
           [Publish (orderTopic (config h))
              (OrderDoc (snd (buildOrder h (generateOrderID env) (generateNodeID env)
                 (generateActionID env) baseCommand ''Roboligent Robin - Inference''
                 [\<lparr>Key = ''inference_name'', Value = baseCommand\<rparr>])))],
           Inr (generateOrderID env))"
    using assms(4)
    by (simp add: sendDirectActionOrder_def buildActionParameters_def publishOrder_def
        buildOrder_effect case_prod_beta Let_def)
  then have "handleDirectAction h env commandStr =
               Inr (h\<lparr>headerIDCounter := headerIDCounter h + 1,
                       activeOrders := (activeOrders h)(generateOrderID env \<mapsto> commandStr)\<rparr>,
                    [Publish (orderTopic (config h))
                       (OrderDoc (snd (buildOrder h (generateOrderID env) (generateNodeID env)
                          (generateActionID env) baseCommand ''Roboligent Robin - Inference''
                          [\<lparr>Key = ''inference_name'', Value = baseCommand\<rparr>])))])"
    unfolding handleDirectAction_def Let_def assms(1)
    by simp
  with assms(2,3) show ?thesis
    by (simp only: HandlePLCCommand_def if_False if_True not_True_eq_False)
qed

lemma split_A_I: "strings_Split ''A:I'' = [''A'', ''I'']"
  by (simp add: strings_Split_def colon_def)

lemma split_B_I: "strings_Split ''B:I'' = [''B'', ''I'']"
  by (simp add: strings_Split_def colon_def)

lemma class_A_I: "\<not> isCancelCommand ''A:I'' \<and> isDirectActionCommand ''A:I''"
  by (simp add: isCancelCommand_def isDirectActionCommand_def strings_HasSuffix_def)

lemma class_B_I: "\<not> isCancelCommand ''B:I'' \<and> isDirectActionCommand ''B:I''"
  by (simp add: isCancelCommand_def isDirectActionCommand_def strings_HasSuffix_def)

lemma class_A_C: "isCancelCommand ''A:C''"
  by (simp add: isCancelCommand_def strings_HasSuffix_def)

lemma base_A: "extractBaseCommand ''A:C'' = ''A'' \<and> extractBaseCommand ''A:I'' = ''A''"
  by (simp add: extractBaseCommand_takeWhile colon_def)

text \<open>The cancellation of the one order in flight, when the instant action is
  published.\<close>

lemma cancel_step:
  assumes "rangeOrder env = [(orderID, ''A:I'')]" and "orderID \<noteq> []" and "publishOK env"
  shows "fst (handleCancelCommand h env ''A:C'') =
           h\<lparr>headerIDCounter := headerIDCounter h + 1,
              activeOrders := (activeOrders h)(orderID := None),
              canceledOrders := (canceledOrders h)(orderID \<mapsto> ''A:C'')\<rparr>
         \<and> robotHeaderIDs (snd (handleCancelCommand h env ''A:C'')) =
             [sint (headerIDCounter h + 1)]"
  using assms
  by (simp add: handleCancelCommand_def base_A sendCancelOrder_def getNextHeaderID_def
      NewInstantActionsMessage_def Let_def)

lemma generateOrderID_example:
  "generateOrderID exampleEnv = ''0000000000000001''"
  "generateOrderID (exampleEnv\<lparr>clockOrder := 2\<rparr>) = ''0000000000000002''"
  by (simp_all add: generateOrderID_def exampleEnv_def fmt_016x_1 fmt_016x_2)

lemma step_A_I:
  "publishOK env \<Longrightarrow>
   step h (PLCCommand env ''A:I'') =
     Inr (h\<lparr>headerIDCounter := headerIDCounter h + 1,
             activeOrders := (activeOrders h)(generateOrderID env \<mapsto> ''A:I'')\<rparr>,
          [Publish (orderTopic (config h))
             (OrderDoc (snd (buildOrder h (generateOrderID env) (generateNodeID env)
                (generateActionID env) ''A'' ''Roboligent Robin - Inference''
                [\<lparr>Key = ''inference_name'', Value = ''A''\<rparr>])))])"
  using inference_step [OF split_A_I] class_A_I by simp

lemma step_B_I:
  "publishOK env \<Longrightarrow>
   step h (PLCCommand env ''B:I'') =
     Inr (h\<lparr>headerIDCounter := headerIDCounter h + 1,
             activeOrders := (activeOrders h)(generateOrderID env \<mapsto> ''B:I'')\<rparr>,
          [Publish (orderTopic (config h))
             (OrderDoc (snd (buildOrder h (generateOrderID env) (generateNodeID env)
                (generateActionID env) ''B'' ''Roboligent Robin - Inference''
                [\<lparr>Key = ''inference_name'', Value = ''B''\<rparr>])))])"
  using inference_step [OF split_B_I] class_B_I by simp

lemma step_A_C:
  assumes "rangeOrder env = [(orderID, ''A:I'')]" and "orderID \<noteq> []" and "publishOK env"
  shows "\<exists>out. step h (PLCCommand env ''A:C'') =
           Inr (h\<lparr>headerIDCounter := headerIDCounter h + 1,
                   activeOrders := (activeOrders h)(orderID := None),
                   canceledOrders := (canceledOrders h)(orderID \<mapsto> ''A:C'')\<rparr>, out)
         \<and> robotHeaderIDs out = [sint (headerIDCounter h + 1)]"
  using cancel_step [OF assms, of h] class_A_C
  by (cases "handleCancelCommand h env ''A:C''") (simp add: HandlePLCCommand_def)

lemma exampleEnv_fields:
  "publishOK exampleEnv" "publishOK (exampleEnv\<lparr>rangeOrder := r\<rparr>)"
  "publishOK (exampleEnv\<lparr>clockOrder := c\<rparr>)"
  "rangeOrder (exampleEnv\<lparr>rangeOrder := r\<rparr>) = r"
  by (simp_all add: exampleEnv_def)

lemma run_collisionInputs:
  "activeOrders (fst (run exampleHandler collisionInputs)) = [''0000000000000001'' \<mapsto> ''B:I'']
   \<and> canceledOrders (fst (run exampleHandler collisionInputs)) =
       [''0000000000000001'' \<mapsto> ''A:C'']
   \<and> validRun exampleHandler collisionInputs"
proof -
  let ?oid = "''0000000000000001''"
  let ?envC = "exampleEnv\<lparr>rangeOrder := [(?oid, ''A:I'')]\<rparr>"
  define h1 where "h1 = exampleHandler\<lparr>headerIDCounter := headerIDCounter exampleHandler + 1,
        activeOrders := (activeOrders exampleHandler)(?oid \<mapsto> ''A:I'')\<rparr>"
  define h2 where "h2 = h1\<lparr>headerIDCounter := headerIDCounter h1 + 1,
        activeOrders := (activeOrders h1)(?oid := None),
        canceledOrders := (canceledOrders h1)(?oid \<mapsto> ''A:C'')\<rparr>"
  define h3 where "h3 = h2\<lparr>headerIDCounter := headerIDCounter h2 + 1,
        activeOrders := (activeOrders h2)(?oid \<mapsto> ''B:I'')\<rparr>"
  obtain out1 where s1: "step exampleHandler (PLCCommand exampleEnv ''A:I'') = Inr (h1, out1)"
    using step_A_I [OF exampleEnv_fields(1), of exampleHandler]
    by (simp add: h1_def generateOrderID_example)
  obtain out2 where s2: "step h1 (PLCCommand ?envC ''A:C'') = Inr (h2, out2)"
    using step_A_C [of ?envC ?oid h1] by (auto simp: h2_def exampleEnv_fields)
  obtain out3 where s3: "step h2 (PLCCommand exampleEnv ''B:I'') = Inr (h3, out3)"
    using step_B_I [OF exampleEnv_fields(1), of h2]
    by (simp add: h3_def generateOrderID_example)
  have r: "fst (run exampleHandler collisionInputs) = h3"
    by (simp add: collisionInputs_def s1 s2 s3 del: step.simps)
  have v1: "rangeOrderValid h1 ?envC"
    by (simp add: rangeOrderValid_def h1_def exampleHandler_def NewDirectActionHandler_def
        exampleEnv_fields)
  have v: "validRun exampleHandler collisionInputs"
    using class_A_I class_B_I class_A_C
    by (simp add: collisionInputs_def s1 s2 s3 v1 del: step.simps)
  have a: "activeOrders h3 = [?oid \<mapsto> ''B:I'']"
    by (simp add: h3_def h2_def h1_def exampleHandler_def NewDirectActionHandler_def)
  have c: "canceledOrders h3 = [?oid \<mapsto> ''A:C'']"
    by (simp add: h3_def h2_def h1_def exampleHandler_def NewDirectActionHandler_def)
  show ?thesis
    by (simp only: r a c v)
qed

lemma run_freshInputs:
  "activeOrders (fst (run exampleHandler freshInputs)) = [''0000000000000002'' \<mapsto> ''B:I'']
   \<and> canceledOrders (fst (run exampleHandler freshInputs)) =
       [''0000000000000001'' \<mapsto> ''A:C'']
   \<and> freshIDs exampleHandler freshInputs
   \<and> robotHeaderIDs (snd (run exampleHandler freshInputs)) = [1, 2, 3]"
proof -
  let ?oid = "''0000000000000001''"
  let ?oid2 = "''0000000000000002''"
  let ?envC = "exampleEnv\<lparr>rangeOrder := [(?oid, ''A:I'')]\<rparr>"
  let ?env2 = "exampleEnv\<lparr>clockOrder := 2\<rparr>"
  define h1 where "h1 = exampleHandler\<lparr>headerIDCounter := headerIDCounter exampleHandler + 1,
        activeOrders := (activeOrders exampleHandler)(?oid \<mapsto> ''A:I'')\<rparr>"
  define h2 where "h2 = h1\<lparr>headerIDCounter := headerIDCounter h1 + 1,
        activeOrders := (activeOrders h1)(?oid := None),
        canceledOrders := (canceledOrders h1)(?oid \<mapsto> ''A:C'')\<rparr>"
  define h3 where "h3 = h2\<lparr>headerIDCounter := headerIDCounter h2 + 1,
        activeOrders := (activeOrders h2)(?oid2 \<mapsto> ''B:I'')\<rparr>"
  have c0: "headerIDCounter exampleHandler = 0" "headerIDCounter h1 = 1" "headerIDCounter h2 = 2"
    by (simp_all add: h2_def h1_def exampleHandler_def NewDirectActionHandler_def)
  obtain out1 where s1: "step exampleHandler (PLCCommand exampleEnv ''A:I'') = Inr (h1, out1)"
      and o1: "robotHeaderIDs out1 = [sint (headerIDCounter exampleHandler + 1)]"
    using step_A_I [OF exampleEnv_fields(1), of exampleHandler]
    by (simp add: h1_def generateOrderID_example buildOrder_effect)
  obtain out2 where s2: "step h1 (PLCCommand ?envC ''A:C'') = Inr (h2, out2)"
      and o2: "robotHeaderIDs out2 = [sint (headerIDCounter h1 + 1)]"
    using step_A_C [of ?envC ?oid h1] by (auto simp: h2_def exampleEnv_fields)
  obtain out3 where s3: "step h2 (PLCCommand ?env2 ''B:I'') = Inr (h3, out3)"
      and o3: "robotHeaderIDs out3 = [sint (headerIDCounter h2 + 1)]"
    using step_B_I [OF exampleEnv_fields(3), of h2 2]
    by (simp add: h3_def generateOrderID_example buildOrder_effect)
  have r: "run exampleHandler freshInputs = (h3, out1 @ out2 @ out3)"
    by (simp add: freshInputs_def s1 s2 s3 del: step.simps)
  have f1: "inputFresh exampleHandler (PLCCommand exampleEnv ''A:I'')"
    using class_A_I
    by (simp add: generateOrderID_example exampleHandler_def NewDirectActionHandler_def)
  have f2: "inputFresh h1 (PLCCommand ?envC ''A:C'')"
    using class_A_C by simp
  have f3: "inputFresh h2 (PLCCommand ?env2 ''B:I'')"
    using class_B_I
    by (simp add: generateOrderID_example h2_def h1_def exampleHandler_def
        NewDirectActionHandler_def)
  have f: "freshIDs exampleHandler freshInputs"
    by (simp add: freshInputs_def s1 s2 s3 f1 f2 f3 del: step.simps inputFresh.simps)
  have a: "activeOrders h3 = [?oid2 \<mapsto> ''B:I'']"
    by (simp add: h3_def h2_def h1_def exampleHandler_def NewDirectActionHandler_def)
  have c: "canceledOrders h3 = [?oid \<mapsto> ''A:C'']"
    by (simp add: h3_def h2_def h1_def exampleHandler_def NewDirectActionHandler_def)
  have ids: "robotHeaderIDs (out1 @ out2 @ out3) = [1, 2, 3]"
    by (simp add: robotHeaderIDs_append o1 o2 o3 c0)
  show ?thesis
    by (simp only: r fst_conv snd_conv a c f ids)
qed

section \<open>Disjointness of the two maps\<close>

text \<open>
  C5, as amended. In every state a fresh handler reaches by a sequence of command and
  state-report callbacks in which each order id generated for a direct action is not,
  at that moment, a key of \<open>canceledOrders\<close>, no order id is a key of both
  \<open>activeOrders\<close> and \<open>canceledOrders\<close>.
\<close>

theorem maps_disjoint_when_ids_fresh:
  assumes "freshIDs (NewDirectActionHandler cfg) inputs"
  shows "dom (activeOrders (fst (run (NewDirectActionHandler cfg) inputs)))
         \<inter> dom (canceledOrders (fst (run (NewDirectActionHandler cfg) inputs))) = {}"
proof -
  have "dom (activeOrders (NewDirectActionHandler cfg))
        \<inter> dom (canceledOrders (NewDirectActionHandler cfg)) = {}"
    by (simp add: NewDirectActionHandler_def)
  then show ?thesis
    using assms by (rule run_disjoint)
qed

theorem maps_disjoint_when_ids_fresh_witness:
  "freshIDs (NewDirectActionHandler exampleConfig) freshInputs
   \<and> activeOrders (fst (run (NewDirectActionHandler exampleConfig) freshInputs)) =
       [''0000000000000002'' \<mapsto> ''B:I'']
   \<and> canceledOrders (fst (run (NewDirectActionHandler exampleConfig) freshInputs)) =
       [''0000000000000001'' \<mapsto> ''A:C'']
   \<and> dom (activeOrders (fst (run (NewDirectActionHandler exampleConfig) freshInputs)))
       \<inter> dom (canceledOrders (fst (run (NewDirectActionHandler exampleConfig) freshInputs)))
       = {}"
proof -
  have f: "freshIDs (NewDirectActionHandler exampleConfig) freshInputs"
    using run_freshInputs by (simp only: exampleHandler_def)
  show ?thesis
    using f maps_disjoint_when_ids_fresh [OF f] run_freshInputs
    by (simp only: exampleHandler_def simp_thms)
qed

text \<open>
  C5 as stated fails when a clock reading repeats: the order made at reading
  1 is canceled, and a second order made at the same reading gets the same id, which is
  then a key of both maps. The run is a valid one (the cancel command iterates over
  the entries \<open>activeOrders\<close> has).
\<close>

theorem maps_disjoint_counterexample:
  "validRun exampleHandler collisionInputs
   \<and> ''0000000000000001'' \<in> dom (activeOrders (fst (run exampleHandler collisionInputs)))
   \<and> ''0000000000000001'' \<in> dom (canceledOrders (fst (run exampleHandler collisionInputs)))"
  using run_collisionInputs by simp

section \<open>Header ids\<close>

theorem header_ids_increase_before_wrap_witness:
  "length (robotHeaderIDs (snd (run (NewDirectActionHandler exampleConfig) freshInputs))) < 2 ^ 63
   \<and> robotHeaderIDs (snd (run (NewDirectActionHandler exampleConfig) freshInputs)) = [1, 2, 3]
   \<and> sorted_wrt (<) (robotHeaderIDs (snd (run (NewDirectActionHandler exampleConfig) freshInputs)))"
proof -
  have ids: "robotHeaderIDs (snd (run (NewDirectActionHandler exampleConfig) freshInputs)) = [1, 2, 3]"
    using run_freshInputs by (simp only: exampleHandler_def)
  then have len: "length (robotHeaderIDs (snd (run (NewDirectActionHandler exampleConfig)
                     freshInputs))) < 2 ^ 63"
    by simp
  show ?thesis
    using len ids header_ids_increase_before_wrap [OF len]
    by (simp only: simp_thms)
qed

lemma wrap_step:
  "\<exists>h1 out. step h (PLCCommand exampleEnv ''A:I'') = Inr (h1, out)
     \<and> robotHeaderIDs out = [sint (headerIDCounter h + 1)]
     \<and> headerIDCounter h1 = headerIDCounter h + 1"
  using step_A_I [OF exampleEnv_fields(1), of h]
  by (simp add: buildOrder_effect)

lemma run_replicate_length:
  "length (robotHeaderIDs (snd (run h (replicate n (PLCCommand exampleEnv ''A:I''))))) = n"
proof (induction n arbitrary: h)
  case 0
  show ?case by simp
next
  case (Suc n)
  obtain h1 out where s: "step h (PLCCommand exampleEnv ''A:I'') = Inr (h1, out)"
    and o: "robotHeaderIDs out = [sint (headerIDCounter h + 1)]"
    using wrap_step [of h] by blast
  show ?case
    using Suc.IH [of h1] o
    by (cases "run h1 (replicate n (PLCCommand exampleEnv ''A:I''))")
       (simp add: s robotHeaderIDs_append del: step.simps)
qed

lemma validRun_replicate: "validRun h (replicate n (PLCCommand exampleEnv ''A:I''))"
proof (induction n arbitrary: h)
  case 0
  show ?case by simp
next
  case (Suc n)
  obtain h1 out where s: "step h (PLCCommand exampleEnv ''A:I'') = Inr (h1, out)"
    using wrap_step [of h] by blast
  show ?case
    using Suc.IH [of h1] class_A_I
    by (simp add: s del: step.simps)
qed

lemma sint_wrap:
  "sint (of_nat (2 ^ 63) :: 64 word) < sint (of_nat (2 ^ 63 - 1) :: 64 word)"
proof -
  have "sint (of_nat (2 ^ 63 - 1) :: 64 word) = int (2 ^ 63 - 1)"
    by (rule sint_small) simp
  moreover have "sint (of_nat (2 ^ 63) :: 64 word) = - (2 ^ 63)"
    by simp
  ultimately show ?thesis
    by simp
qed

text \<open>
  The side condition of the header-id theorem cannot be dropped in the model: after
  \<open>2^63 - 1\<close> orders the \<open>int64\<close> counter holds its greatest value, and the next
  order would carry the least one.
\<close>

lemma header_ids_wrap_at_range_end:
  "validRun exampleHandler wrapInputs
   \<and> \<not> sorted_wrt (<) (robotHeaderIDs (snd (run exampleHandler wrapInputs)))"
proof -
  define N :: nat where "N = 2 ^ 63"
  define xs where "xs = robotHeaderIDs (snd (run exampleHandler wrapInputs))"
  have w: "wrapInputs = replicate N (PLCCommand exampleEnv ''A:I'')"
    by (simp only: wrapInputs_def N_def)
  have N2: "2 \<le> N"
    by (simp add: N_def)
  have len: "length xs = N"
    unfolding xs_def w by (rule run_replicate_length)
  obtain n where n: "xs = map (\<lambda>k. sint (headerIDCounter exampleHandler + of_nat k)) [1..<Suc n]"
    unfolding xs_def using run_headers [of exampleHandler wrapInputs] by blast
  then have "length xs = n"
    by (simp del: upt_Suc)
  with len have nN: "n = N"
    by simp
  have c0: "headerIDCounter exampleHandler = 0"
    by (simp add: exampleHandler_def NewDirectActionHandler_def)
  have xs: "xs = map (\<lambda>k. sint (of_nat k :: 64 word)) [1..<Suc N]"
    using n by (simp only: nN c0 add_0)
  have i1: "xs ! (N - 2) = sint (of_nat (N - 1) :: 64 word)"
  proof -
    have "N - 2 < length [1..<Suc N]" "[1..<Suc N] ! (N - 2) = N - 1"
      using N2 by (simp_all del: upt_Suc)
    then show ?thesis
      by (simp only: xs nth_map)
  qed
  have i2: "xs ! (N - 1) = sint (of_nat N :: 64 word)"
  proof -
    have "N - 1 < length [1..<Suc N]" "[1..<Suc N] ! (N - 1) = N"
      using N2 by (simp_all del: upt_Suc)
    then show ?thesis
      by (simp only: xs nth_map)
  qed
  have "sint (of_nat N :: 64 word) < sint (of_nat (N - 1) :: 64 word)"
    using sint_wrap by (simp only: N_def)
  then have lt: "xs ! (N - 1) < xs ! (N - 2)"
    by (simp only: i1 i2)
  have "\<not> sorted_wrt (<) xs"
  proof
    assume "sorted_wrt (<) xs"
    moreover have "N - 2 < N - 1" "N - 1 < length xs"
      using N2 len by simp_all
    ultimately have "xs ! (N - 2) < xs ! (N - 1)"
      by (rule sorted_wrt_nth_less)
    with lt show False
      by simp
  qed
  moreover have "validRun exampleHandler wrapInputs"
    unfolding w by (rule validRun_replicate)
  ultimately show ?thesis
    by (simp only: xs_def simp_thms)
qed

section \<open>Reports on an id held by both maps\<close>

lemma run_collisionInputs_state:
  "fst (run exampleHandler collisionInputs) = collisionHandler"
proof -
  let ?oid = "''0000000000000001''"
  let ?envC = "exampleEnv\<lparr>rangeOrder := [(?oid, ''A:I'')]\<rparr>"
  define h1 where "h1 = exampleHandler\<lparr>headerIDCounter := headerIDCounter exampleHandler + 1,
        activeOrders := (activeOrders exampleHandler)(?oid \<mapsto> ''A:I'')\<rparr>"
  define h2 where "h2 = h1\<lparr>headerIDCounter := headerIDCounter h1 + 1,
        activeOrders := (activeOrders h1)(?oid := None),
        canceledOrders := (canceledOrders h1)(?oid \<mapsto> ''A:C'')\<rparr>"
  define h3 where "h3 = h2\<lparr>headerIDCounter := headerIDCounter h2 + 1,
        activeOrders := (activeOrders h2)(?oid \<mapsto> ''B:I'')\<rparr>"
  obtain out1 where s1: "step exampleHandler (PLCCommand exampleEnv ''A:I'') = Inr (h1, out1)"
    using step_A_I [OF exampleEnv_fields(1), of exampleHandler]
    by (simp add: h1_def generateOrderID_example)
  obtain out2 where s2: "step h1 (PLCCommand ?envC ''A:C'') = Inr (h2, out2)"
    using step_A_C [of ?envC ?oid h1] by (auto simp: h2_def exampleEnv_fields)
  obtain out3 where s3: "step h2 (PLCCommand exampleEnv ''B:I'') = Inr (h3, out3)"
    using step_B_I [OF exampleEnv_fields(1), of h2]
    by (simp add: h3_def generateOrderID_example)
  have r: "fst (run exampleHandler collisionInputs) = h3"
    by (simp add: collisionInputs_def s1 s2 s3 del: step.simps)
  have "h3 = collisionHandler"
    by (simp add: h3_def h2_def h1_def collisionHandler_def exampleHandler_def
        NewDirectActionHandler_def)
  with r show ?thesis
    by simp
qed

lemma collisionHandler_report:
  "HandleRobotState collisionHandler (Some (stateReport ''0000000000000001'' actionStates)) =
     processCanceledOrderStates collisionHandler ''0000000000000001'' ''A:C'' actionStates"
  by (simp add: HandleRobotState_def stateReport_def collisionHandler_def)

text \<open>
  C1 as stated fails on an order id that is a key of both maps. After the three
  commands of \<open>collisionInputs\<close> the id \<open>0000000000000001\<close> is a key of
  \<open>activeOrders\<close> (for \<open>B:I\<close>) and of \<open>canceledOrders\<close> (for \<open>A:C\<close>). A report on
  it with one FINISHED and one RUNNING action calls for the Running verdict by the
  priority list, but the handler looks \<open>canceledOrders\<close> up first, scans, and
  publishes the Success response to the cancel command.
\<close>

theorem active_verdict_counterexample:
  "validRun exampleHandler collisionInputs
   \<and> activeOrders (fst (run exampleHandler collisionInputs)) ''0000000000000001'' = Some ''B:I''
   \<and> spec_activeVerdict [actionState ''FINISHED'', actionState ''RUNNING''] =
       Some PLCStatusRunning
   \<and> snd (HandleRobotState (fst (run exampleHandler collisionInputs))
         (Some (stateReport ''0000000000000001''
                  [actionState ''FINISHED'', actionState ''RUNNING''])))
     = [Publish ''bridge/response'' (Text ''A:S'')]"
proof -
  have v: "validRun exampleHandler collisionInputs"
    using run_collisionInputs by simp
  have a: "activeOrders collisionHandler ''0000000000000001'' = Some ''B:I''"
    by (simp add: collisionHandler_def)
  have s: "spec_activeVerdict [actionState ''FINISHED'', actionState ''RUNNING''] =
             Some PLCStatusRunning"
    by (simp add: spec_activeVerdict_def statusCount_def actionStatusOf_def actionState_def)
  have p: "snd (HandleRobotState collisionHandler
             (Some (stateReport ''0000000000000001''
                      [actionState ''FINISHED'', actionState ''RUNNING''])))
           = [Publish ''bridge/response'' (Text ''A:S'')]"
    unfolding collisionHandler_report
    by (simp add: actionState_def sendPLCResponse_text PLCStatusSuccess_def
        collisionHandler_def exampleHandler_def NewDirectActionHandler_def
        exampleConfig_def)
  show ?thesis
    by (simp only: run_collisionInputs_state v a s p simp_thms)
qed

text \<open>
  C3 as stated fails on the same id. A report on it with one FINISHED action publishes
  a Success response, a terminal verdict; yet the id stays in \<open>activeOrders\<close>, and it
  is \<open>canceledOrders\<close> that loses it.
\<close>

theorem active_report_frame_counterexample:
  "validRun exampleHandler collisionInputs
   \<and> activeOrders (fst (run exampleHandler collisionInputs)) ''0000000000000001'' = Some ''B:I''
   \<and> canceledOrders (fst (run exampleHandler collisionInputs)) ''0000000000000001'' =
       Some ''A:C''
   \<and> snd (HandleRobotState (fst (run exampleHandler collisionInputs))
         (Some (stateReport ''0000000000000001'' [actionState ''FINISHED''])))
     = [Publish ''bridge/response'' (Text ''A:S'')]
   \<and> activeOrders (fst (HandleRobotState (fst (run exampleHandler collisionInputs))
         (Some (stateReport ''0000000000000001'' [actionState ''FINISHED'']))))
       ''0000000000000001'' = Some ''B:I''
   \<and> canceledOrders (fst (HandleRobotState (fst (run exampleHandler collisionInputs))
         (Some (stateReport ''0000000000000001'' [actionState ''FINISHED'']))))
       ''0000000000000001'' = None"
proof -
  have v: "validRun exampleHandler collisionInputs"
    using run_collisionInputs by simp
  have a: "activeOrders collisionHandler ''0000000000000001'' = Some ''B:I''"
    by (simp add: collisionHandler_def)
  have c: "canceledOrders collisionHandler ''0000000000000001'' = Some ''A:C''"
    by (simp add: collisionHandler_def)
  have r: "HandleRobotState collisionHandler
             (Some (stateReport ''0000000000000001'' [actionState ''FINISHED''])) =
           (collisionHandler\<lparr>canceledOrders := Map.empty\<rparr>,
            [Publish ''bridge/response'' (Text ''A:S'')])"
    unfolding collisionHandler_report
    by (simp add: actionState_def sendPLCResponse_text PLCStatusSuccess_def
        collisionHandler_def exampleHandler_def NewDirectActionHandler_def
        exampleConfig_def)
  show ?thesis
    by (simp only: run_collisionInputs_state r fst_conv snd_conv v a c simp_thms)
       (simp add: collisionHandler_def)
qed

end
